theory Spec2Isabelle
  imports Main "HOL-Library.Sublist"
begin

section \<open>Python values shared by the models\<close>

text \<open>
  Source text is a \<open>string\<close> (a list of 8-bit characters); the models read it as
  ASCII text, so a byte above \<open>0x7F\<close> is neither white space nor a word character
  nor a line boundary. On text with other characters Python differs: \<open>str.splitlines\<close>
  also splits at U+0085, U+2028 and U+2029, and the classes \<open>\s\<close> and \<open>\w\<close> of \<open>re\<close>
  hold further white space, letters and digits. Exceptions are values: every function of the source that can raise
  returns \<open>py_exception + 'a\<close>, with \<open>Inl\<close> the exception.
\<close>

datatype py_exception =
    IndexError | KeyError | StopIteration | UnboundLocalError | SyntaxError
  | JavaSyntaxError | LexerError | OSError | OtherException

abbreviation LF :: char where "LF \<equiv> CHR 0x0A"
abbreviation CR :: char where "CR \<equiv> CHR 0x0D"

text \<open>
  \<open>str.splitlines()\<close>: the ASCII line boundaries of Python (line feed, carriage return,
  carriage return followed by line feed, vertical tab, form feed, file, group and record
  separator); the boundaries are dropped and no empty last line is produced.
\<close>

definition is_linebreak :: "char \<Rightarrow> bool" where
  "is_linebreak c \<longleftrightarrow> c \<in> {LF, CR, CHR 0x0B, CHR 0x0C, CHR 0x1C, CHR 0x1D, CHR 0x1E}"

fun splitlines_aux :: "string \<Rightarrow> string \<Rightarrow> string list" where
  "splitlines_aux [] cur = (if cur = [] then [] else [rev cur])"
| "splitlines_aux [c] cur =
     (if is_linebreak c then [rev cur] else [rev (c # cur)])"
| "splitlines_aux (c # d # cs) cur =
     (if c = CR \<and> d = LF then rev cur # splitlines_aux cs []
      else if is_linebreak c then rev cur # splitlines_aux (d # cs) []
      else splitlines_aux (d # cs) (c # cur))"

definition splitlines :: "string \<Rightarrow> string list" where
  "splitlines s = splitlines_aux s []"

text \<open>A file that cannot be opened: \<open>open\<close>, \<open>read\<close> and \<open>readlines\<close> raise.\<close>

definition unreadable :: "string \<Rightarrow> py_exception + 'a" where
  "unreadable file_path = Inl OSError"

text \<open>\<open>xs[i]\<close> of Python: a negative index counts from the end, out of range raises.\<close>

definition py_index :: "'a list \<Rightarrow> int \<Rightarrow> py_exception + 'a" where
  "py_index xs i =
     (if 0 \<le> i \<and> i < int (length xs) then Inr (xs ! nat i)
      else if i < 0 \<and> - int (length xs) \<le> i then Inr (xs ! nat (int (length xs) + i))
      else Inl IndexError)"

text \<open>\<open>xs[a:b]\<close> of Python: both bounds are clamped, negative bounds count from the end.\<close>

definition py_clamp :: "nat \<Rightarrow> int \<Rightarrow> nat" where
  "py_clamp n a = (if a < 0 then nat (int n + a) else min n (nat a))"

definition py_slice :: "'a list \<Rightarrow> int \<Rightarrow> int \<Rightarrow> 'a list" where
  "py_slice xs a b = take (py_clamp (length xs) b - py_clamp (length xs) a)
                          (drop (py_clamp (length xs) a) xs)"

definition py_slice_from :: "'a list \<Rightarrow> int \<Rightarrow> 'a list" where
  "py_slice_from xs a = drop (py_clamp (length xs) a) xs"

text \<open>\<open>sep.join(xs)\<close>.\<close>

fun join :: "string \<Rightarrow> string list \<Rightarrow> string" where
  "join sep [] = []"
| "join sep [x] = x"
| "join sep (x # y # ys) = x @ sep @ join sep (y # ys)"

section \<open>parse\_global\_var\_for\_java.py: the end line of a static field\<close>

text \<open>
  \<open>JavaGlobalVariableVisitor.calculate_end_line(codes, start_line)\<close>. The loop
  \<open>for i in range(start_line - 1, len(lines))\<close> is the recursion on \<open>i\<close>; \<open>continue\<close> on
  an empty line keeps both counters, \<open>break\<close> returns \<open>i + 1\<close>. The counted delimiters
  are the round brackets. \<open>line[-1]\<close> is read only after the test \<open>line == ""\<close> failed.
\<close>

function calculate_end_line_loop ::
  "string list \<Rightarrow> int \<Rightarrow> nat \<Rightarrow> nat \<Rightarrow> int \<Rightarrow> py_exception + int" where
  "calculate_end_line_loop lines i open_braces close_braces end_line =
     (if i < int (length lines) then
        (case py_index lines i of
           Inl e \<Rightarrow> Inl e
         | Inr line \<Rightarrow>
             if line = [] then
               calculate_end_line_loop lines (i + 1) open_braces close_braces end_line
             else
               let open_braces' = open_braces + count_list line (CHR ''('');
                   close_braces' = close_braces + count_list line (CHR '')'')
               in if open_braces' = close_braces' \<and> last line = CHR '';''
                  then Inr (i + 1)
                  else calculate_end_line_loop lines (i + 1) open_braces' close_braces' end_line)
      else Inr end_line)"
  by pat_completeness auto
termination
  by (relation "measure (\<lambda>(lines, i, ob, cb, e). nat (int (length lines) - i))") auto

definition calculate_end_line :: "string \<Rightarrow> int \<Rightarrow> py_exception + int" where
  "calculate_end_line codes start_line =
     calculate_end_line_loop (splitlines codes) (start_line - 1) 0 0 start_line"

text \<open>A static field whose initializer goes on in the second line.\<close>

definition two_line_field :: string where
  "two_line_field = ''static int x = f(1)'' @ [LF] @ ''    + 2;''"


text \<open>
  The scan of the specification: delimiters are counted line by line from the start line
  and the scan stops at the first line where the accumulated counts are equal. The pair of
  delimiters is a parameter (the specification speaks of braces, the code counts round
  brackets).
\<close>

fun spec_first_balanced :: "char \<Rightarrow> char \<Rightarrow> string list \<Rightarrow> nat \<Rightarrow> nat \<Rightarrow> int \<Rightarrow> int option" where
  "spec_first_balanced opn cls [] open_count close_count i = None"
| "spec_first_balanced opn cls (line # rest) open_count close_count i =
     (let open_count' = open_count + count_list line opn;
          close_count' = close_count + count_list line cls
      in if open_count' = close_count' then Some i
         else spec_first_balanced opn cls rest open_count' close_count' (i + 1))"

definition spec_end_line :: "char \<Rightarrow> char \<Rightarrow> string \<Rightarrow> int \<Rightarrow> int" where
  "spec_end_line opn cls codes start_line =
     (case spec_first_balanced opn cls (drop (nat (start_line - 1)) (splitlines codes)) 0 0 start_line of
        Some e \<Rightarrow> e
      | None \<Rightarrow> start_line)"

text \<open>
  The stopping condition of the code at the line of (0-based) index \<open>i\<close>, for a scan that
  started at index \<open>a\<close>: the line is not empty, the round brackets of the lines \<open>a..i\<close>
  are balanced and the line ends in a semicolon.
\<close>

definition acc_count :: "char \<Rightarrow> string list \<Rightarrow> nat \<Rightarrow> nat \<Rightarrow> nat" where
  "acc_count c lines a k = count_list (concat (take (k - a) (drop a lines))) c"

definition stops_at :: "string list \<Rightarrow> nat \<Rightarrow> nat \<Rightarrow> bool" where
  "stops_at lines a i \<longleftrightarrow>
     lines ! i \<noteq> [] \<and>
     acc_count (CHR ''('') lines a (Suc i) = acc_count (CHR '')'') lines a (Suc i) \<and>
     last (lines ! i) = CHR '';''"

section \<open>get\_repo\_structure.py: the structural parsers\<close>

text \<open>
  The dictionaries the parsers build. A Python function or method and a class of either
  language have the keys \<open>name\<close>, \<open>start_line\<close>, \<open>end_line\<close>, \<open>text\<close>; a Python class has
  \<open>methods\<close> too; a Java method has \<open>name\<close>, \<open>start_line\<close> and \<open>text\<close> only.
\<close>

record decl =
  name :: string
  start_line :: int
  end_line :: int
  "text" :: "string list"

record class_decl = decl +
  methods :: "decl list"

record java_method =
  method_name :: string
  method_start_line :: int
  method_text :: "string list"

subsection \<open>parse\_python\_file\<close>

text \<open>
  The tree of \<open>ast.parse\<close>, reduced to what \<open>ast.walk\<close> and the two \<open>isinstance\<close> tests
  read: a node is a \<open>ClassDef\<close>, a \<open>FunctionDef\<close>, an \<open>AsyncFunctionDef\<close> (which is not a
  subclass of \<open>FunctionDef\<close>) or any other node; the first three carry \<open>name\<close>, \<open>lineno\<close>,
  \<open>end_lineno\<close> and \<open>body\<close>. Child nodes that are expressions are left out: no expression
  of Python contains a statement, so none of them is or contains a class or a function
  definition, and leaving them out does not change the order of the other nodes in the
  breadth-first walk. The module is its list of statements.
\<close>

datatype stmt =
    ClassDef string int int "stmt list"
  | FunctionDef string int int "stmt list"
  | AsyncFunctionDef string int int "stmt list"
  | OtherNode "stmt list"

fun child_nodes :: "stmt \<Rightarrow> stmt list" where
  "child_nodes (ClassDef nm l e body) = body"
| "child_nodes (FunctionDef nm l e body) = body"
| "child_nodes (AsyncFunctionDef nm l e body) = body"
| "child_nodes (OtherNode body) = body"

fun node_count :: "stmt \<Rightarrow> nat" where
  "node_count (ClassDef nm l e body) = Suc (sum_list (map node_count body))"
| "node_count (FunctionDef nm l e body) = Suc (sum_list (map node_count body))"
| "node_count (AsyncFunctionDef nm l e body) = Suc (sum_list (map node_count body))"
| "node_count (OtherNode body) = Suc (sum_list (map node_count body))"

lemma node_count_child_nodes: "sum_list (map node_count (child_nodes n)) < node_count n"
  by (cases n) simp_all

text \<open>
  \<open>ast.walk\<close>: a queue; the first node is taken, its children are put at the end, the
  node is yielded.
\<close>

function walk :: "stmt list \<Rightarrow> stmt list" where
  "walk [] = []"
| "walk (node # todo) = node # walk (todo @ child_nodes node)"
  by pat_completeness auto
termination
  by (relation "measure (\<lambda>todo. sum_list (map node_count todo))")
     (simp_all add: node_count_child_nodes)

text \<open>The loop \<open>for n in node.body\<close> of a class: \<open>methods.append\<close> and \<open>class_methods.add\<close>.\<close>

fun class_body_loop ::
  "string list \<Rightarrow> stmt list \<Rightarrow> decl list \<Rightarrow> string set \<Rightarrow> decl list \<times> string set" where
  "class_body_loop lines [] method_list class_methods = (method_list, class_methods)"
| "class_body_loop lines (FunctionDef nm l e body # ns) method_list class_methods =
     class_body_loop lines ns
       (method_list @ [\<lparr>name = nm, start_line = l, end_line = e, text = py_slice lines (l - 1) e\<rparr>])
       (insert nm class_methods)"
| "class_body_loop lines (n # ns) method_list class_methods =
     class_body_loop lines ns method_list class_methods"

text \<open>
  One iteration of \<open>for node in ast.walk(parsed_data)\<close> on the state
  \<open>(class_info, function_names, class_methods)\<close>.
\<close>

fun visit ::
  "string list \<Rightarrow> class_decl list \<times> decl list \<times> string set \<Rightarrow> stmt \<Rightarrow>
   class_decl list \<times> decl list \<times> string set" where
  "visit lines (class_info, function_names, class_methods) (ClassDef nm l e body) =
     (let (method_list, class_methods') = class_body_loop lines body [] class_methods
      in (class_info @
            [\<lparr>name = nm, start_line = l, end_line = e, text = py_slice lines (l - 1) e,
              methods = method_list\<rparr>],
          function_names, class_methods'))"
| "visit lines (class_info, function_names, class_methods) (FunctionDef nm l e body) =
     (if nm \<notin> class_methods then
        (class_info,
         function_names @
           [\<lparr>name = nm, start_line = l, end_line = e, text = py_slice lines (l - 1) e\<rparr>],
         class_methods)
      else (class_info, function_names, class_methods))"
| "visit lines st node = st"

definition walk_loop ::
  "string list \<Rightarrow> stmt list \<Rightarrow> class_decl list \<times> decl list \<times> string set" where
  "walk_loop lines nodes = foldl (visit lines) ([], [], {}) nodes"

text \<open>
  The third component of the result is the string \<open>""\<close> on an error and the list of lines
  otherwise.
\<close>

datatype py_text = Str string | StrList "string list"

text \<open>
  \<open>parse_python_file(file_path, file_content)\<close>. \<open>read_file\<close> is \<open>open(...).read()\<close> and
  \<open>ast_parse\<close> is \<open>ast.parse\<close>; both handlers catch every \<open>Exception\<close>. The walk starts at
  the module node, which is no class and no function, and goes on with its statements.
\<close>

definition parse_python_file ::
  "(string \<Rightarrow> py_exception + stmt list) \<Rightarrow> (string \<Rightarrow> py_exception + string) \<Rightarrow>
   string \<Rightarrow> string option \<Rightarrow> class_decl list \<times> decl list \<times> py_text" where
  "parse_python_file ast_parse read_file file_path file_content =
     (case (case file_content of None \<Rightarrow> read_file file_path | Some c \<Rightarrow> Inr c) of
        Inl e \<Rightarrow> ([], [], Str [])
      | Inr content \<Rightarrow>
          (case ast_parse content of
             Inl e \<Rightarrow> ([], [], Str [])
           | Inr parsed_data \<Rightarrow>
               (let (class_info, function_names, class_methods) =
                      walk_loop (splitlines content) (walk parsed_data)
                in (class_info, function_names, StrList (splitlines content)))))"

text \<open>An \<open>ast.parse\<close> that raises \<open>SyntaxError\<close> on the text \<open>bad\<close>.\<close>

definition syntax_error_on :: "string \<Rightarrow> string \<Rightarrow> py_exception + stmt list" where
  "syntax_error_on bad content = (if content = bad then Inl SyntaxError else Inr [])"

text \<open>
  What \<open>ast.parse\<close> guarantees about the line numbers of its tree: a definition does
  not end before it starts, and the definitions among its statements lie within its lines.
\<close>

fun within :: "int \<Rightarrow> int \<Rightarrow> stmt \<Rightarrow> bool" where
  "within l e (ClassDef nm l' e' stmts) = (l \<le> l' \<and> e' \<le> e)"
| "within l e (FunctionDef nm l' e' stmts) = (l \<le> l' \<and> e' \<le> e)"
| "within l e (AsyncFunctionDef nm l' e' stmts) = (l \<le> l' \<and> e' \<le> e)"
| "within l e (OtherNode stmts) = True"

fun well_formed :: "stmt \<Rightarrow> bool" where
  "well_formed (ClassDef nm l e stmts) = (l \<le> e \<and> (\<forall>n\<in>set stmts. within l e n \<and> well_formed n))"
| "well_formed (FunctionDef nm l e stmts) = (l \<le> e \<and> (\<forall>n\<in>set stmts. within l e n \<and> well_formed n))"
| "well_formed (AsyncFunctionDef nm l e stmts) = (l \<le> e \<and> (\<forall>n\<in>set stmts. within l e n \<and> well_formed n))"
| "well_formed (OtherNode stmts) = (\<forall>n\<in>set stmts. well_formed n)"

text \<open>The property of the state of the walk that the spans are ordered and nested.\<close>

definition py_inv :: "class_decl list \<times> decl list \<times> string set \<Rightarrow> bool" where
  "py_inv st \<longleftrightarrow>
     (\<forall>c\<in>set (fst st). start_line c \<le> end_line c \<and>
        (\<forall>m\<in>set (methods c). start_line c \<le> start_line m \<and> start_line m \<le> end_line m \<and>
           end_line m \<le> end_line c)) \<and>
     (\<forall>f\<in>set (fst (snd st)). start_line f \<le> end_line f)"



definition helper_module :: "stmt list" where
  "helper_module =
     [FunctionDef ''helper'' 1 2 [OtherNode []],
      ClassDef ''A'' 4 6 [FunctionDef ''run'' 5 6 [OtherNode []]]]"

definition helper_source :: string where
  "helper_source = ''def helper():'' @ [LF] @ ''    pass'' @ [LF] @ [LF] @ ''class A:'' @ [LF] @
                   ''    def run(self):'' @ [LF] @ ''        pass''"

subsection \<open>parse\_java\_file\<close>

text \<open>The character classes \<open>\s\<close> and \<open>\w\<close> of \<open>re\<close>, on ASCII.\<close>

definition is_space :: "char \<Rightarrow> bool" where
  "is_space c \<longleftrightarrow>
     c \<in> {CHR '' '', CHR 0x09, LF, CHR 0x0B, CHR 0x0C, CR, CHR 0x1C, CHR 0x1D, CHR 0x1E, CHR 0x1F}"

definition is_word :: "char \<Rightarrow> bool" where
  "is_word c \<longleftrightarrow>
     (let n = (of_char c :: nat)
      in (48 \<le> n \<and> n \<le> 57) \<or> (65 \<le> n \<and> n \<le> 90) \<or> (97 \<le> n \<and> n \<le> 122) \<or> n = 95)"

text \<open>The class \<open>[\w<>\[\]]\<close> of the method pattern.\<close>

definition is_type_char :: "char \<Rightarrow> bool" where
  "is_type_char c \<longleftrightarrow> is_word c \<or> c \<in> {CHR ''<'', CHR ''>'', CHR ''['', CHR '']''}"

text \<open>
  An alternation of literal words, none a prefix of another: the first that is a prefix
  of the text is consumed.
\<close>

fun strip_alt :: "string list \<Rightarrow> string \<Rightarrow> string option" where
  "strip_alt [] s = None"
| "strip_alt (a # alts) s = (if prefix a s then Some (drop (length a) s) else strip_alt alts s)"

text \<open>
  \<open>re.match(class_pattern, line)\<close> with
  \<open>class_pattern = ^\s*(public|protected|private)?\s*(abstract|final)?\s*class\s+(\w+)\s*\<close>;
  the result is \<open>group(3)\<close>, and \<open>None\<close> when the line does not match. No modifier starts
  with the letter of \<open>class\<close>, so an optional group that can match has to, and the greedy
  \<open>\w+\<close> takes the whole word.
\<close>

definition class_match :: "string \<Rightarrow> string option" where
  "class_match line =
     (let s1 = dropWhile is_space line;
          s2 = (case strip_alt [''public'', ''protected'', ''private''] s1 of
                  Some r \<Rightarrow> r | None \<Rightarrow> s1);
          s3 = dropWhile is_space s2;
          s4 = (case strip_alt [''abstract'', ''final''] s3 of Some r \<Rightarrow> r | None \<Rightarrow> s3);
          s5 = dropWhile is_space s4
      in if prefix ''class'' s5 then
           (case drop 5 s5 of
              [] \<Rightarrow> None
            | c # s6 \<Rightarrow>
                if is_space c then
                  (let nm = takeWhile is_word (dropWhile is_space s6)
                   in if nm = [] then None else Some nm)
                else None)
         else None)"

text \<open>
  \<open>re.match(method_pattern, line)\<close> with \<open>method_pattern =\<close>
  \<open>^\s*(public|protected|private|static|final|abstract|synchronized)?\s*([\w<>\[\]]+\s+)?(\w+)\s*\(([^)]*)\)\s*{?\<close>;
  the result is \<open>group(3)\<close>. The matcher tries an optional group with its content first
  and without it when the rest fails, as the backtracking of \<open>re\<close> does:
  \<open>method_tail\<close> is \<open>(\w+)\s*\(([^)]*)\)\<close>, \<open>method_typed\<close> is the type group followed by it.
\<close>

definition method_tail :: "string \<Rightarrow> string option" where
  "method_tail r =
     (let w = takeWhile is_word r
      in if w = [] then None
         else (case dropWhile is_space (dropWhile is_word r) of
                 [] \<Rightarrow> None
               | c # rest \<Rightarrow> if c = CHR ''('' \<and> CHR '')'' \<in> set rest then Some w else None))"

definition method_typed :: "string \<Rightarrow> string option" where
  "method_typed r =
     (if takeWhile is_type_char r = [] then None
      else (case dropWhile is_type_char r of
              [] \<Rightarrow> None
            | c # r1 \<Rightarrow> if is_space c then method_tail (dropWhile is_space r1) else None))"

definition method_rest :: "string \<Rightarrow> string option" where
  "method_rest r = (case method_typed r of Some w \<Rightarrow> Some w | None \<Rightarrow> method_tail r)"

definition method_match :: "string \<Rightarrow> string option" where
  "method_match line =
     (let s1 = dropWhile is_space line
      in case strip_alt [''public'', ''protected'', ''private'', ''static'', ''final'',
                         ''abstract'', ''synchronized''] s1 of
           None \<Rightarrow> method_rest s1
         | Some r \<Rightarrow>
             (case method_rest (dropWhile is_space r) of
                Some w \<Rightarrow> Some w
              | None \<Rightarrow> method_rest s1))"

text \<open>
  The loop \<open>for i, line in enumerate(lines, start=1)\<close>. \<open>current_class\<close> and
  \<open>class_start_line\<close> are assigned together, so the state holds them as one optional pair;
  \<open>if current_class:\<close> is false for \<open>None\<close> and for the empty string. \<open>all_lines\<close> is the
  whole list \<open>lines\<close>, \<open>rest\<close> the lines still to visit.
\<close>

fun parse_java_loop ::
  "string list \<Rightarrow> int \<Rightarrow> string list \<Rightarrow> decl list \<Rightarrow> java_method list \<Rightarrow>
   (string \<times> int) option \<Rightarrow> decl list \<times> java_method list \<times> (string \<times> int) option" where
  "parse_java_loop all_lines i [] class_info method_info current =
     (class_info, method_info, current)"
| "parse_java_loop all_lines i (line # rest) class_info method_info current =
     (case class_match line of
        Some class_name \<Rightarrow>
          parse_java_loop all_lines (i + 1) rest
            (case current of
               None \<Rightarrow> class_info
             | Some (current_class, class_start_line) \<Rightarrow>
                 if current_class \<noteq> [] then
                   class_info @
                     [\<lparr>name = current_class, start_line = class_start_line, end_line = i - 1,
                       text = py_slice all_lines (class_start_line - 1) (i - 1)\<rparr>]
                 else class_info)
            method_info (Some (class_name, i))
      | None \<Rightarrow>
          (case method_match line of
             Some nm \<Rightarrow>
               parse_java_loop all_lines (i + 1) rest class_info
                 (method_info @
                    [\<lparr>method_name = nm, method_start_line = i, method_text = [line]\<rparr>])
                 current
           | None \<Rightarrow> parse_java_loop all_lines (i + 1) rest class_info method_info current))"

text \<open>
  \<open>parse_java_file(file_path, file_content)\<close>: the content is absent (the file is read with
  \<open>readlines\<close>, and any exception gives three empty lists), a list of lines, or a string
  that is split.
\<close>

datatype file_content = NoContent | ContentList "string list" | ContentStr string

definition parse_java_lines :: "string list \<Rightarrow> decl list \<times> java_method list \<times> string list" where
  "parse_java_lines lines =
     (let (class_info, method_info, current) = parse_java_loop lines 1 lines [] [] None
      in (case current of
            None \<Rightarrow> (class_info, method_info, lines)
          | Some (current_class, class_start_line) \<Rightarrow>
              if current_class \<noteq> [] then
                (class_info @
                   [\<lparr>name = current_class, start_line = class_start_line,
                     end_line = int (length lines),
                     text = py_slice_from lines (class_start_line - 1)\<rparr>],
                 method_info, lines)
              else (class_info, method_info, lines)))"

definition parse_java_file ::
  "(string \<Rightarrow> py_exception + string list) \<Rightarrow> string \<Rightarrow> file_content \<Rightarrow>
   decl list \<times> java_method list \<times> string list" where
  "parse_java_file readlines file_path content =
     (case content of
        NoContent \<Rightarrow>
          (case readlines file_path of
             Inl e \<Rightarrow> ([], [], [])
           | Inr ls \<Rightarrow> parse_java_lines ls)
      | ContentList ls \<Rightarrow> parse_java_lines ls
      | ContentStr s \<Rightarrow> parse_java_lines (splitlines s))"

text \<open>
  The closing line of the specification: the first line, from the line of the class
  header on, at which at least one brace was opened and as many were closed.
\<close>

fun spec_closing_line :: "string list \<Rightarrow> nat \<Rightarrow> nat \<Rightarrow> int \<Rightarrow> int option" where
  "spec_closing_line [] opened closed i = None"
| "spec_closing_line (line # rest) opened closed i =
     (let opened' = opened + count_list line (CHR ''{'');
          closed' = closed + count_list line (CHR ''}'')
      in if 0 < opened' \<and> opened' = closed' then Some i
         else spec_closing_line rest opened' closed' (i + 1))"

definition spec_class_end_line :: "string list \<Rightarrow> int \<Rightarrow> int option" where
  "spec_class_end_line lines start = spec_closing_line (drop (nat (start - 1)) lines) 0 0 start"

text \<open>
  Consecutive classes: each ends on the line before the next starts. \<open>java_inv\<close> is the
  invariant of the loop before line \<open>i\<close>: what holds of the classes closed so far, of the
  methods, of the lines that match the class pattern, and of the current class.
\<close>

fun chained :: "decl list \<Rightarrow> bool" where
  "chained [] = True"
| "chained [c] = True"
| "chained (c # d # cs) = (end_line c + 1 = start_line d \<and> chained (d # cs))"

definition inv_classes :: "string list \<Rightarrow> int \<Rightarrow> decl list \<Rightarrow> bool" where
  "inv_classes all_lines i ci \<longleftrightarrow>
     (\<forall>c\<in>set ci. 1 \<le> start_line c \<and> start_line c \<le> end_line c \<and> end_line c < i \<and>
        class_match (all_lines ! nat (start_line c - 1)) = Some (name c) \<and>
        (\<forall>j\<in>{start_line c<..end_line c}. class_match (all_lines ! nat (j - 1)) = None) \<and>
        class_match (all_lines ! nat (end_line c)) \<noteq> None)"

definition inv_methods :: "string list \<Rightarrow> int \<Rightarrow> java_method list \<Rightarrow> bool" where
  "inv_methods all_lines i mi \<longleftrightarrow>
     (\<forall>m\<in>set mi. 1 \<le> method_start_line m \<and> method_start_line m < i \<and>
        method_text m = [all_lines ! nat (method_start_line m - 1)] \<and>
        method_match (all_lines ! nat (method_start_line m - 1)) = Some (method_name m) \<and>
        class_match (all_lines ! nat (method_start_line m - 1)) = None)"

definition inv_headers ::
  "string list \<Rightarrow> int \<Rightarrow> decl list \<Rightarrow> (string \<times> int) option \<Rightarrow> bool" where
  "inv_headers all_lines i ci cur \<longleftrightarrow>
     (\<forall>j\<in>{1..<i}. class_match (all_lines ! nat (j - 1)) \<noteq> None \<longrightarrow>
        (\<exists>c\<in>set ci. start_line c = j) \<or> (\<exists>c. cur = Some (c, j)))"

definition inv_current ::
  "string list \<Rightarrow> int \<Rightarrow> decl list \<Rightarrow> (string \<times> int) option \<Rightarrow> bool" where
  "inv_current all_lines i ci cur \<longleftrightarrow>
     (case cur of
        None \<Rightarrow> ci = []
      | Some (c, s) \<Rightarrow>
          c \<noteq> [] \<and> 1 \<le> s \<and> s < i \<and> (ci \<noteq> [] \<longrightarrow> end_line (last ci) + 1 = s) \<and>
          class_match (all_lines ! nat (s - 1)) = Some c \<and>
          (\<forall>j\<in>{s<..<i}. class_match (all_lines ! nat (j - 1)) = None))"

definition java_inv ::
  "string list \<Rightarrow> int \<Rightarrow> decl list \<Rightarrow> java_method list \<Rightarrow> (string \<times> int) option \<Rightarrow> bool" where
  "java_inv all_lines i ci mi cur \<longleftrightarrow>
     inv_classes all_lines i ci \<and> chained ci \<and> inv_methods all_lines i mi \<and>
     inv_headers all_lines i ci cur \<and> inv_current all_lines i ci cur"

text \<open>
  Two classes with an empty line between them, a class with one method, and a class with
  a nested class followed by a method of the outer class.
\<close>

definition two_classes :: string where
  "two_classes = ''class A {'' @ [LF] @ ''}'' @ [LF] @ [LF] @ ''class B {'' @ [LF] @ ''}''"

definition nested_class :: string where
  "nested_class = ''class Outer {'' @ [LF] @ ''    class Inner {'' @ [LF] @ ''    }'' @ [LF] @
                  ''    void g() {'' @ [LF] @ ''    }'' @ [LF] @ ''}''"

definition class_with_method :: string where
  "class_with_method = ''class A {'' @ [LF] @ ''    void run() {'' @ [LF] @ ''    }'' @ [LF] @ ''}''"

section \<open>compress\_file\_java.py: the skeleton of a Java file\<close>

text \<open>
  What the transformer reads of the tree of \<open>javalang\<close>: a member of a class body is a
  \<open>MethodDeclaration\<close> with its name, a \<open>FieldDeclaration\<close> with the names of its
  declarators, or anything else (a constructor, an initializer, a nested type). A
  compilation unit is the list of its \<open>ClassDeclaration\<close> nodes in the order in which
  \<open>tree.filter(javalang.tree.ClassDeclaration)\<close> yields them.
\<close>

datatype member = MethodDeclaration string | FieldDeclaration "string list" | OtherMember

datatype class_declaration = ClassDeclaration (class_name: string) (body: "member list")

definition replacement_string :: string where
  "replacement_string = ''...''"

text \<open>
  \<open>transform_class\<close>: the loop over \<open>class_node.body\<close>; \<open>member.declarators[0]\<close> raises
  \<open>IndexError\<close> on an empty list. The result is the pair of the values of \<open>"name"\<close> and
  \<open>"body"\<close>.
\<close>

fun transform_class_loop :: "bool \<Rightarrow> member list \<Rightarrow> string list \<Rightarrow> py_exception + string list" where
  "transform_class_loop keep_constant [] transformed_body = Inr transformed_body"
| "transform_class_loop keep_constant (MethodDeclaration nm # ms) transformed_body =
     transform_class_loop keep_constant ms
       (transformed_body @ [''    '' @ nm @ ''() { '' @ replacement_string @ '' }''])"
| "transform_class_loop keep_constant (FieldDeclaration ds # ms) transformed_body =
     (if keep_constant then
        (case ds of
           [] \<Rightarrow> Inl IndexError
         | d # _ \<Rightarrow>
             transform_class_loop keep_constant ms
               (transformed_body @ [''    '' @ d @ '' = '' @ replacement_string @ '';'']))
      else transform_class_loop keep_constant ms transformed_body)"
| "transform_class_loop keep_constant (OtherMember # ms) transformed_body =
     transform_class_loop keep_constant ms transformed_body"

definition transform_class :: "bool \<Rightarrow> class_declaration \<Rightarrow> py_exception + string \<times> string list" where
  "transform_class keep_constant class_node =
     (case transform_class_loop keep_constant (body class_node) [] of
        Inl e \<Rightarrow> Inl e
      | Inr transformed_body \<Rightarrow> Inr (class_name class_node, transformed_body))"

text \<open>The text of one class: \<open>class <name> {\<close>, the indented stub lines, \<open>}\<close>.\<close>

definition class_code :: "string \<times> string list \<Rightarrow> string" where
  "class_code transformed_class =
     ''class '' @ fst transformed_class @ '' {'' @ [LF] @
     join [LF] (map (\<lambda>line. ''    '' @ line) (snd transformed_class)) @ [LF] @ ''}''"

fun transform_loop :: "bool \<Rightarrow> class_declaration list \<Rightarrow> string list \<Rightarrow> py_exception + string list" where
  "transform_loop keep_constant [] transformed_code = Inr transformed_code"
| "transform_loop keep_constant (node # nodes) transformed_code =
     (case transform_class keep_constant node of
        Inl e \<Rightarrow> Inl e
      | Inr transformed_class \<Rightarrow>
          transform_loop keep_constant nodes (transformed_code @ [class_code transformed_class]))"

text \<open>
  \<open>transform\<close>: \<open>javalang_parse\<close> is \<open>javalang.parse.parse\<close>. The handler catches
  \<open>JavaSyntaxError\<close> and nothing else; any other exception leaves the function.
\<close>

definition transform ::
  "(string \<Rightarrow> py_exception + class_declaration list) \<Rightarrow> bool \<Rightarrow> string \<Rightarrow> py_exception + string" where
  "transform javalang_parse keep_constant java_code =
     (case javalang_parse java_code of
        Inl e \<Rightarrow> if e = JavaSyntaxError then Inr java_code else Inl e
      | Inr tree \<Rightarrow>
          (case transform_loop keep_constant tree [] of
             Inl e \<Rightarrow> Inl e
           | Inr transformed_code \<Rightarrow> Inr (join [LF, LF] transformed_code)))"

definition get_skeleton_code_java ::
  "(string \<Rightarrow> py_exception + class_declaration list) \<Rightarrow> string \<Rightarrow> bool \<Rightarrow> py_exception + string" where
  "get_skeleton_code_java javalang_parse java_code keep_constant =
     transform javalang_parse keep_constant java_code"

text \<open>
  The stub lines in the words of the specification: one line per method, one line per
  field when constants are kept (a field declaration with several declarators declares
  several fields), nothing for any other member.
\<close>

fun spec_stubs :: "bool \<Rightarrow> member \<Rightarrow> string list" where
  "spec_stubs keep_constant (MethodDeclaration nm) = [''    '' @ nm @ ''() { ... }'']"
| "spec_stubs keep_constant (FieldDeclaration ds) =
     (if keep_constant then map (\<lambda>d. ''    '' @ d @ '' = ...;'') ds else [])"
| "spec_stubs keep_constant OtherMember = []"

definition spec_stub_lines :: "bool \<Rightarrow> member list \<Rightarrow> string list" where
  "spec_stub_lines keep_constant members = concat (map (spec_stubs keep_constant) members)"

text \<open>A member that is not a field declaration with several declarators, or with none.\<close>

fun single_declarator :: "member \<Rightarrow> bool" where
  "single_declarator (FieldDeclaration ds) = (length ds = 1)"
| "single_declarator m = True"

text \<open>
  A parser that raises the tokenizer's \<open>LexerError\<close> on a text with the character \<open>#\<close>
  and \<open>JavaSyntaxError\<close> on a text with an unclosed brace.
\<close>

definition sample_javalang_parse :: "string \<Rightarrow> py_exception + class_declaration list" where
  "sample_javalang_parse java_code =
     (if java_code = ''class A { # }'' then Inl LexerError
      else if java_code = ''class A {'' then Inl JavaSyntaxError
      else Inr [])"

text \<open>A class with a static field, two methods and a constructor.\<close>

definition two_methods_one_field :: class_declaration where
  "two_methods_one_field =
     ClassDeclaration ''Counter''
       [FieldDeclaration [''LIMIT''], MethodDeclaration ''get'', OtherMember,
        MethodDeclaration ''reset'']"

text \<open>A class whose one field declaration, \<open>static int a, b;\<close>, declares two fields.\<close>

definition two_fields_one_declaration :: class_declaration where
  "two_fields_one_declaration = ClassDeclaration ''Pair'' [FieldDeclaration [''a'', ''b'']]"

section \<open>repair.py: the edit of the first file and the validation of the patch\<close>

text \<open>
  The collaborators of \<open>repair.py\<close> that are not part of it, as parameters; each may raise.
  \<open>split_edit_multifile_commands\<close> returns an insertion-ordered dictionary, here the list
  of its items; \<open>py_eval\<close> is \<open>eval\<close> on a key, which turns the quoted file name into the
  file name; \<open>lint_code\<close> returns its success flag (the two error sets are only printed).
\<close>

record 'iv repair_env =
  extract_python_blocks :: "string \<Rightarrow> py_exception + string list"
  extract_java_blocks :: "string \<Rightarrow> py_exception + string list"
  split_edit_multifile_commands ::
    "string list \<Rightarrow> bool \<Rightarrow> py_exception + (string \<times> string list) list"
  py_eval :: "string \<Rightarrow> py_exception + string"
  parse_diff_edit_commands :: "string list \<Rightarrow> string \<Rightarrow> 'iv \<Rightarrow> py_exception + string"
  parse_edit_commands :: "string list \<Rightarrow> string \<Rightarrow> py_exception + string"
  fake_git_repo :: "string \<Rightarrow> string \<Rightarrow> string \<Rightarrow> string \<Rightarrow> py_exception + string \<times> string"
  check_syntax :: "string \<Rightarrow> py_exception + bool"
  lint_code :: "string \<Rightarrow> string \<Rightarrow> string \<Rightarrow> string \<Rightarrow> py_exception + bool"

text \<open>
  The body of the \<open>try\<close> of \<open>_post_process_multifile_repair\<close>, from the dictionary on:
  \<open>next(iter(...))\<close> raises on an empty dictionary; \<open>edited_file\<close> is assigned before
  \<open>file_contents[edited_file]\<close> is read; \<open>new_content\<close> stays \<open>""\<close> when anything raises.
\<close>

definition edit_first_file ::
  "'iv repair_env \<Rightarrow> (string \<times> string list) list \<Rightarrow> (string \<rightharpoonup> string) \<Rightarrow> (string \<rightharpoonup> 'iv) \<Rightarrow>
   bool \<Rightarrow> string \<times> string" where
  "edit_first_file env file_to_commands file_contents file_loc_intervals diff_format =
     (case file_to_commands of
        [] \<Rightarrow> ([], [])
      | (edited_file_key, _) # _ \<Rightarrow>
          (case map_of file_to_commands edited_file_key of
             None \<Rightarrow> ([], [])
           | Some edit_commands \<Rightarrow>
               (case py_eval env edited_file_key of
                  Inl e \<Rightarrow> ([], [])
                | Inr edited_file \<Rightarrow>
                    (case file_contents edited_file of
                       None \<Rightarrow> (edited_file, [])
                     | Some content \<Rightarrow>
                         if diff_format then
                           (case file_loc_intervals edited_file of
                              None \<Rightarrow> (edited_file, [])
                            | Some intervals \<Rightarrow>
                                (case parse_diff_edit_commands env edit_commands content intervals of
                                   Inl e \<Rightarrow> (edited_file, [])
                                 | Inr new_content \<Rightarrow> (edited_file, new_content)))
                         else
                           (case parse_edit_commands env edit_commands content of
                              Inl e \<Rightarrow> (edited_file, [])
                            | Inr new_content \<Rightarrow> (edited_file, new_content))))))"

text \<open>
  \<open>_post_process_multifile_repair\<close>: the blocks are extracted outside the \<open>try\<close>, so an
  exception there leaves the function; for a language that is neither \<open>python\<close> nor \<open>java\<close>
  the variable \<open>edit_multifile_commands\<close> is unbound, which raises inside the \<open>try\<close>.
  The result is \<open>(edited_file, new_content)\<close>.
\<close>

definition post_process_multifile_repair ::
  "'iv repair_env \<Rightarrow> string \<Rightarrow> (string \<rightharpoonup> string) \<Rightarrow> (string \<rightharpoonup> 'iv) \<Rightarrow> string \<Rightarrow> bool \<Rightarrow>
   py_exception + string \<times> string" where
  "post_process_multifile_repair env raw_output file_contents file_loc_intervals language diff_format =
     (case (if language = ''python'' then map_sum id Some (extract_python_blocks env raw_output)
            else if language = ''java'' then map_sum id Some (extract_java_blocks env raw_output)
            else Inr None) of
        Inl e \<Rightarrow> Inl e
      | Inr None \<Rightarrow> Inr ([], [])
      | Inr (Some edit_multifile_commands) \<Rightarrow>
          (case split_edit_multifile_commands env edit_multifile_commands diff_format of
             Inl e \<Rightarrow> Inr ([], [])
           | Inr file_to_commands \<Rightarrow>
               Inr (edit_first_file env file_to_commands file_contents file_loc_intervals
                      diff_format)))"

text \<open>\<open>s.replace(old, new)\<close>: the occurrences of \<open>old\<close> from the left, without overlap.\<close>

fun replace_nonempty :: "string \<Rightarrow> string \<Rightarrow> string \<Rightarrow> string" where
  "replace_nonempty old new [] = []"
| "replace_nonempty old new (c # cs) =
     (if prefix old (c # cs) then new @ replace_nonempty old new (drop (length old - 1) cs)
      else c # replace_nonempty old new cs)"

definition py_replace :: "string \<Rightarrow> string \<Rightarrow> string \<Rightarrow> string" where
  "py_replace old new s =
     (if old = [] then new @ concat (map (\<lambda>c. c # new) s) else replace_nonempty old new s)"

definition no_newline_marker :: string where
  "no_newline_marker = CHR 0x5C # '' No newline at end of file'' @ [LF]"

text \<open>
  Modelled from the spec: \<open>check_code_differ_by_just_empty_lines\<close> of
  \<open>agentless/util/postprocess_data.py\<close>, which is not among the sources. The specification
  has it compare the two contents after stripping blank lines; a blank line is a line
  with nothing but white space.
\<close>

definition strip_blank_lines :: "string \<Rightarrow> string list" where
  "strip_blank_lines code = filter (\<lambda>line. \<not> list_all is_space line) (splitlines code)"

definition check_code_differ_by_just_empty_lines :: "string \<Rightarrow> string \<Rightarrow> bool" where
  "check_code_differ_by_just_empty_lines code prev_code \<longleftrightarrow>
     strip_blank_lines code = strip_blank_lines prev_code"

text \<open>
  \<open>post_process_raw_output\<close>, with \<open>args.language\<close> and \<open>args.diff_format\<close> as arguments.
  The whole body is in a \<open>try\<close> that catches every \<open>Exception\<close>; the three results keep the
  values they had when the exception was raised. The result is
  \<open>(git_diffs, raw_git_diffs, content)\<close>.
\<close>

definition post_process_raw_output ::
  "'iv repair_env \<Rightarrow> string \<Rightarrow> (string \<rightharpoonup> string) \<Rightarrow> (string \<rightharpoonup> 'iv) \<Rightarrow> string \<Rightarrow> bool \<Rightarrow>
   string \<times> string \<times> string" where
  "post_process_raw_output env raw_output_text file_contents file_loc_intervals language diff_format =
     (case post_process_multifile_repair env raw_output_text file_contents file_loc_intervals
             language diff_format of
        Inl e \<Rightarrow> ([], [], [])
      | Inr (edited_file, new_content) \<Rightarrow>
          (case file_contents edited_file of
             None \<Rightarrow> ([], [], [])
           | Some content \<Rightarrow>
               (case fake_git_repo env ''playground'' edited_file content new_content of
                  Inl e \<Rightarrow> ([], [], content)
                | Inr (git_diff, f_path) \<Rightarrow>
                    (let raw_git_diffs = [] @ [LF] @ py_replace no_newline_marker [] git_diff
                     in case check_syntax env new_content of
                          Inl e \<Rightarrow> ([], raw_git_diffs, content)
                        | Inr syntax_success \<Rightarrow>
                            (case lint_code env ''playground'' ''test.py'' new_content content of
                               Inl e \<Rightarrow> ([], raw_git_diffs, content)
                             | Inr lint_success \<Rightarrow>
                                 (let differ_by_empty_lines =
                                        check_code_differ_by_just_empty_lines new_content content
                                  in if syntax_success \<and> \<not> differ_by_empty_lines
                                     then (raw_git_diffs, raw_git_diffs, content)
                                     else ([], raw_git_diffs, content)))))))"

text \<open>
  Sample collaborators: the response names two files, \<open>eval\<close> removes the quotes of a key,
  the edit commands turn the content into \<open>patch content\<close>, every check succeeds.
\<close>

definition sample_eval :: "string \<Rightarrow> py_exception + string" where
  "sample_eval key =
     (case key of
        [] \<Rightarrow> Inl SyntaxError
      | q # rest \<Rightarrow>
          if q = CHR 0x27 \<and> rest \<noteq> [] \<and> last rest = CHR 0x27 then Inr (butlast rest)
          else Inl SyntaxError)"

definition sample_env :: "(string \<Rightarrow> string) \<Rightarrow> unit repair_env" where
  "sample_env patch =
     \<lparr>extract_python_blocks = (\<lambda>raw. Inr [raw]),
      extract_java_blocks = (\<lambda>raw. Inr [raw]),
      split_edit_multifile_commands =
        (\<lambda>commands d. Inr [(CHR 0x27 # ''a.py'' @ [CHR 0x27], commands),
                            (CHR 0x27 # ''b.py'' @ [CHR 0x27], [''other''])]),
      py_eval = sample_eval,
      parse_diff_edit_commands = (\<lambda>commands content intervals. Inr (patch content)),
      parse_edit_commands = (\<lambda>commands content. Inr (patch content)),
      fake_git_repo = (\<lambda>playground f old new. Inr (''--- '' @ old @ [LF] @ ''+++ '' @ new, f)),
      check_syntax = (\<lambda>code. Inr True),
      lint_code = (\<lambda>playground f new old. Inr True)\<rparr>"

definition sample_files :: "string \<rightharpoonup> string" where
  "sample_files = [''a.py'' \<mapsto> ''x = 1'', ''b.py'' \<mapsto> ''y = 2'']"

section \<open>Properties of the end-line scan\<close>

declare calculate_end_line_loop.simps [simp del]



lemma loop_bounds:
  "0 \<le> i \<Longrightarrow> s \<le> i + 1 \<Longrightarrow> s \<le> int (length lines) \<Longrightarrow>
   \<exists>e. calculate_end_line_loop lines i ob cb s = Inr e \<and> s \<le> e \<and> e \<le> int (length lines)"
proof (induction lines i ob cb s rule: calculate_end_line_loop.induct)
  case (1 lines i ob cb s)
  show ?case
  proof (cases "i < int (length lines)")
    case False
    then show ?thesis using 1 by (simp add: calculate_end_line_loop.simps)
  next
    case True
    then have idx: "py_index lines i = Inr (lines ! nat i)"
      using 1(3) by (simp add: py_index_def)
    show ?thesis
    proof (cases "lines ! nat i = []")
      case True
      with 1 idx \<open>i < int (length lines)\<close> show ?thesis
        by (subst calculate_end_line_loop.simps) simp
    next
      case False
      with 1 idx \<open>i < int (length lines)\<close> show ?thesis
        by (subst calculate_end_line_loop.simps) (simp add: Let_def)
    qed
  qed
qed

lemma acc_count_Suc:
  "a \<le> k \<Longrightarrow> k < length lines \<Longrightarrow>
   acc_count c lines a (Suc k) = acc_count c lines a k + count_list (lines ! k) c"
proof -
  assume h: "a \<le> k" "k < length lines"
  then have "Suc k - a = Suc (k - a)" by simp
  moreover have "k - a < length (drop a lines)" using h by simp
  moreover have "drop a lines ! (k - a) = lines ! k" using h by simp
  ultimately have "take (Suc k - a) (drop a lines) = take (k - a) (drop a lines) @ [lines ! k]"
    by (simp add: take_Suc_conv_app_nth)
  then show ?thesis by (simp add: acc_count_def)
qed

lemma loop_no_stop:
  "a \<le> k \<Longrightarrow> ob = acc_count (CHR ''('') lines a k \<Longrightarrow> cb = acc_count (CHR '')'') lines a k \<Longrightarrow>
   (\<forall>j. k \<le> j \<and> j < length lines \<longrightarrow> \<not> stops_at lines a j) \<Longrightarrow>
   calculate_end_line_loop lines (int k) ob cb s = Inr s"
proof (induction "length lines - k" arbitrary: k ob cb)
  case 0
  then show ?case by (subst calculate_end_line_loop.simps) simp
next
  case (Suc n)
  then have lt: "k < length lines" by simp
  have idx: "py_index lines (int k) = Inr (lines ! k)" using lt by (simp add: py_index_def)
  have ns: "\<not> stops_at lines a k" using Suc.prems lt by simp
  have rec: "calculate_end_line_loop lines (int (Suc k)) (acc_count (CHR ''('') lines a (Suc k))
               (acc_count (CHR '')'') lines a (Suc k)) s = Inr s"
    using Suc.hyps Suc.prems by (intro Suc.hyps(1)) auto
  show ?case
  proof (cases "lines ! k = []")
    case True
    then have "acc_count c lines a (Suc k) = acc_count c lines a k" for c
      using acc_count_Suc[OF Suc.prems(1) lt] by simp
    with rec True idx lt Suc.prems show ?thesis
      by (subst calculate_end_line_loop.simps) (simp add: add.commute)
  next
    case False
    with rec idx lt Suc.prems ns show ?thesis
      by (subst calculate_end_line_loop.simps)
         (auto simp add: Let_def stops_at_def acc_count_Suc[OF Suc.prems(1) lt] add.commute)
  qed
qed

lemma loop_first_stop:
  "a \<le> k \<Longrightarrow> k \<le> i \<Longrightarrow> i < length lines \<Longrightarrow>
   ob = acc_count (CHR ''('') lines a k \<Longrightarrow> cb = acc_count (CHR '')'') lines a k \<Longrightarrow>
   (\<forall>j. k \<le> j \<and> j < i \<longrightarrow> \<not> stops_at lines a j) \<Longrightarrow> stops_at lines a i \<Longrightarrow>
   calculate_end_line_loop lines (int k) ob cb s = Inr (int i + 1)"
proof (induction "i - k" arbitrary: k ob cb)
  case 0
  then have [simp]: "k = i" by simp
  have idx: "py_index lines (int i) = Inr (lines ! i)" using 0 by (simp add: py_index_def)
  from 0 idx show ?case
    by (subst calculate_end_line_loop.simps)
       (simp add: Let_def stops_at_def acc_count_Suc)
next
  case (Suc n)
  then have lt: "k < length lines" "k < i" by simp_all
  have idx: "py_index lines (int k) = Inr (lines ! k)" using lt by (simp add: py_index_def)
  have ns: "\<not> stops_at lines a k" using Suc.prems lt by simp
  have rec: "calculate_end_line_loop lines (int (Suc k)) (acc_count (CHR ''('') lines a (Suc k))
               (acc_count (CHR '')'') lines a (Suc k)) s = Inr (int i + 1)"
    using Suc.hyps Suc.prems by (intro Suc.hyps(1)) auto
  show ?case
  proof (cases "lines ! k = []")
    case True
    then have "acc_count c lines a (Suc k) = acc_count c lines a k" for c
      using acc_count_Suc[OF Suc.prems(1) lt(1)] by simp
    with rec True idx lt Suc.prems show ?thesis
      by (subst calculate_end_line_loop.simps) (simp add: add.commute)
  next
    case False
    with rec idx lt Suc.prems ns show ?thesis
      by (subst calculate_end_line_loop.simps)
         (auto simp add: Let_def stops_at_def acc_count_Suc[OF Suc.prems(1) lt(1)] add.commute)
  qed
qed


lemma splitlines_two_line_field:
  "splitlines two_line_field = [''static int x = f(1)'', ''    + 2;'']"
  by (simp add: splitlines_def two_line_field_def is_linebreak_def)

text \<open>
  Claim C10: for a start line between 1 and the number of lines, the scan returns (it
  raises nothing), and the end line it returns lies between the start line and the number
  of lines.
\<close>

theorem calculate_end_line_in_range:
  assumes "1 \<le> s" and "s \<le> int (length (splitlines codes))"
  shows "\<exists>e. calculate_end_line codes s = Inr e \<and>
           s \<le> e \<and> e \<le> int (length (splitlines codes))"
  unfolding calculate_end_line_def using assms by (intro loop_bounds) simp_all

theorem calculate_end_line_in_range_witness:
  "(1::int) \<le> 1 \<and> 1 \<le> int (length (splitlines two_line_field)) \<and>
   (\<exists>e. calculate_end_line two_line_field 1 = Inr e \<and>
      1 \<le> e \<and> e \<le> int (length (splitlines two_line_field)))"
  using calculate_end_line_in_range [of 1 two_line_field]
  by (simp add: splitlines_two_line_field)

text \<open>
  Claim C5, as amended: the scan returns the first line from the start line on that is not
  empty, ends in a semicolon and at which the round brackets counted since the start line
  are balanced; when there is no such line it returns the start line.
\<close>

theorem calculate_end_line_stops:
  assumes "1 \<le> s"
  shows "(\<forall>i. nat (s - 1) \<le> i \<and> i < length (splitlines codes) \<and>
              stops_at (splitlines codes) (nat (s - 1)) i \<and>
              (\<forall>j. nat (s - 1) \<le> j \<and> j < i \<longrightarrow>
                   \<not> stops_at (splitlines codes) (nat (s - 1)) j) \<longrightarrow>
              calculate_end_line codes s = Inr (int i + 1)) \<and>
         ((\<forall>j. nat (s - 1) \<le> j \<and> j < length (splitlines codes) \<longrightarrow>
               \<not> stops_at (splitlines codes) (nat (s - 1)) j) \<longrightarrow>
          calculate_end_line codes s = Inr s)"
proof -
  define a where "a = nat (s - 1)"
  have ia: "s - 1 = int a" using assms by (simp add: a_def)
  have z: "acc_count c (splitlines codes) a a = 0" for c by (simp add: acc_count_def)
  show ?thesis
    unfolding calculate_end_line_def a_def[symmetric] ia
    using loop_first_stop[of a a _ "splitlines codes" 0 0 s]
          loop_no_stop[of a a 0 "splitlines codes" 0 s]
    by (auto simp: z)
qed

theorem calculate_end_line_stops_witness:
  "(1::int) \<le> 1 \<and> stops_at (splitlines two_line_field) 0 1 \<and>
   \<not> stops_at (splitlines two_line_field) 0 0 \<and>
   calculate_end_line two_line_field 1 = Inr 2"
proof -
  have s1: "stops_at (splitlines two_line_field) 0 1"
    by (simp add: splitlines_two_line_field stops_at_def acc_count_def)
  have s0: "\<not> stops_at (splitlines two_line_field) 0 0"
    by (simp add: splitlines_two_line_field stops_at_def acc_count_def)
  have first: "\<forall>j. nat (1 - 1) \<le> j \<and> j < 1 \<longrightarrow> \<not> stops_at (splitlines two_line_field) (nat (1 - 1)) j"
    using s0 by simp
  have "\<forall>i. nat (1 - 1) \<le> i \<and> i < length (splitlines two_line_field) \<and>
            stops_at (splitlines two_line_field) (nat (1 - 1)) i \<and>
            (\<forall>j. nat (1 - 1) \<le> j \<and> j < i \<longrightarrow>
                 \<not> stops_at (splitlines two_line_field) (nat (1 - 1)) j) \<longrightarrow>
            calculate_end_line two_line_field 1 = Inr (int i + 1)"
    using calculate_end_line_stops [of 1 two_line_field] by simp
  then have "nat (1 - 1) \<le> 1 \<and> 1 < length (splitlines two_line_field) \<and>
            stops_at (splitlines two_line_field) (nat (1 - 1)) 1 \<and>
            (\<forall>j. nat (1 - 1) \<le> j \<and> j < 1 \<longrightarrow>
                 \<not> stops_at (splitlines two_line_field) (nat (1 - 1)) j) \<longrightarrow>
            calculate_end_line two_line_field 1 = Inr (int 1 + 1)"
    by (rule spec)
  moreover have "1 < length (splitlines two_line_field)"
    by (simp add: splitlines_two_line_field)
  ultimately have "calculate_end_line two_line_field 1 = Inr 2"
    using s1 first by simp
  with s0 s1 show ?thesis by simp
qed

text \<open>
  Claim C5, as stated, fails: on a field whose first line is balanced but does not end in
  a semicolon the scan goes on to the second line, while the first line with equal counts
  is the first one, for round brackets and for braces.
\<close>

theorem calculate_end_line_not_first_balanced:
  "calculate_end_line two_line_field 1 = Inr 2 \<and>
   spec_end_line (CHR ''('') (CHR '')'') two_line_field 1 = 1 \<and>
   spec_end_line (CHR ''{'') (CHR ''}'') two_line_field 1 = 1"
  by (simp add: calculate_end_line_def spec_end_line_def splitlines_two_line_field
        calculate_end_line_loop.simps py_index_def Let_def)

section \<open>Properties of the skeleton compressor\<close>

lemma transform_class_loop_single:
  "\<forall>m\<in>set ms. single_declarator m \<Longrightarrow>
   transform_class_loop keep ms tb = Inr (tb @ spec_stub_lines keep ms)"
proof (induction ms arbitrary: tb)
  case Nil
  then show ?case by (simp add: spec_stub_lines_def)
next
  case (Cons m ms)
  then have IH: "transform_class_loop keep ms tb' = Inr (tb' @ spec_stub_lines keep ms)" for tb'
    by simp
  show ?case
  proof (cases m)
    case (MethodDeclaration nm)
    then show ?thesis by (simp add: IH spec_stub_lines_def replacement_string_def)
  next
    case (FieldDeclaration ds)
    then have "length ds = 1" using Cons.prems by simp
    then obtain d where "ds = [d]" by (cases ds) auto
    then show ?thesis
      using FieldDeclaration IH [of tb] IH [of "tb @ [''    '' @ d @ '' = ...;'']"]
      by (cases keep) (simp_all add: spec_stub_lines_def replacement_string_def)
  next
    case OtherMember
    then show ?thesis by (simp add: IH spec_stub_lines_def)
  qed
qed

text \<open>
  Claim C6: for a class whose field declarations declare one field each, the body of the
  transformed class is one stub line per method, \<open><name>() { ... }\<close>, and, when constants
  are kept, one stub line per field, \<open><name> = ...;\<close>, in the order of the declarations,
  and the class block is \<open>class <name> {\<close>, these lines indented, and \<open>}\<close>. For a field
  declaration with two declarators the code emits the stub of the first field only, where
  the claim has one stub per field.
\<close>

theorem transform_class_first_declarator_only:
  "((\<forall>m\<in>set (body c). single_declarator m) \<longrightarrow>
      transform_class keep c = Inr (class_name c, spec_stub_lines keep (body c)) \<and>
      (javalang_parse java_code = Inr [c] \<longrightarrow>
       transform javalang_parse keep java_code =
         Inr (''class '' @ class_name c @ '' {'' @ [LF] @
              join [LF] (map (\<lambda>line. ''    '' @ line) (spec_stub_lines keep (body c))) @
              [LF] @ ''}''))) \<and>
   transform_class True two_fields_one_declaration = Inr (''Pair'', [''    a = ...;'']) \<and>
   spec_stub_lines True (body two_fields_one_declaration) = [''    a = ...;'', ''    b = ...;'']"
proof (intro conjI impI)
  assume single: "\<forall>m\<in>set (body c). single_declarator m"
  then show tc: "transform_class keep c = Inr (class_name c, spec_stub_lines keep (body c))"
    by (simp add: transform_class_def transform_class_loop_single)
  assume "javalang_parse java_code = Inr [c]"
  then show "transform javalang_parse keep java_code =
         Inr (''class '' @ class_name c @ '' {'' @ [LF] @
              join [LF] (map (\<lambda>line. ''    '' @ line) (spec_stub_lines keep (body c))) @
              [LF] @ ''}'')"
    using tc by (simp add: transform_def class_code_def)
next
  show "transform_class True two_fields_one_declaration = Inr (''Pair'', [''    a = ...;''])"
    by (simp add: transform_class_def two_fields_one_declaration_def replacement_string_def)
  show "spec_stub_lines True (body two_fields_one_declaration) =
          [''    a = ...;'', ''    b = ...;'']"
    by (simp add: spec_stub_lines_def two_fields_one_declaration_def)
qed

theorem transform_class_first_declarator_only_witness:
  "list_all single_declarator (body two_methods_one_field) \<and>
   transform_class True two_methods_one_field =
     Inr (''Counter'', [''    LIMIT = ...;'', ''    get() { ... }'', ''    reset() { ... }'']) \<and>
   transform (\<lambda>s. Inr [two_methods_one_field]) True ''class Counter {}'' =
     Inr (''class Counter {'' @ [LF] @ ''        LIMIT = ...;'' @ [LF] @
          ''        get() { ... }'' @ [LF] @ ''        reset() { ... }'' @ [LF] @ ''}'')"
  using transform_class_first_declarator_only
          [of two_methods_one_field True "\<lambda>s. Inr [two_methods_one_field]" "''class Counter {}''"]
  by (simp add: two_methods_one_field_def spec_stub_lines_def)

text \<open>
  Claim C7: on a \<open>JavaSyntaxError\<close> of the parser the compressor returns the text
  unchanged; any other exception of the parser (the \<open>LexerError\<close> of the tokenizer) is
  not caught and leaves \<open>transform\<close>.
\<close>

theorem transform_propagates_other_exceptions:
  "(javalang_parse java_code = Inl JavaSyntaxError \<longrightarrow>
      transform javalang_parse keep java_code = Inr java_code) \<and>
   (javalang_parse java_code = Inl e \<and> e \<noteq> JavaSyntaxError \<longrightarrow>
      transform javalang_parse keep java_code = Inl e)"
  by (simp add: transform_def)

theorem transform_propagates_other_exceptions_witness:
  "transform sample_javalang_parse True
     ''class A { # }'' = Inl LexerError \<and>
   transform sample_javalang_parse True
     ''class A {'' = Inr ''class A {''"
  using transform_propagates_other_exceptions
          [of sample_javalang_parse
              "''class A { # }''" True LexerError]
        transform_propagates_other_exceptions
          [of sample_javalang_parse
              "''class A {''" True LexerError]
  by (simp add: sample_javalang_parse_def)

section \<open>Properties of the repair post-processing\<close>

lemma filter_splitlines_aux_LF:
  "filter (\<lambda>line. \<not> list_all is_space line) (splitlines_aux (s @ [LF]) cur) =
   filter (\<lambda>line. \<not> list_all is_space line) (splitlines_aux s cur)"
proof (induction s cur rule: splitlines_aux.induct)
  case (1 cur)
  then show ?case by (simp add: is_linebreak_def)
next
  case (2 c cur)
  then show ?case by (simp add: is_linebreak_def)
next
  case (3 c d cs cur)
  then show ?case
    by (cases cs) (simp_all add: is_linebreak_def)
qed

lemma strip_blank_lines_trailing_LF: "strip_blank_lines (code @ [LF]) = strip_blank_lines code"
  by (simp add: strip_blank_lines_def splitlines_def filter_splitlines_aux_LF)

lemma edit_first_file_Cons:
  "edit_first_file env ((key, ops) # later) file_contents file_loc_intervals diff_format =
     (case py_eval env key of
        Inl e \<Rightarrow> ([], [])
      | Inr file \<Rightarrow>
          (case file_contents file of
             None \<Rightarrow> (file, [])
           | Some content \<Rightarrow>
               if diff_format then
                 (case file_loc_intervals file of
                    None \<Rightarrow> (file, [])
                  | Some intervals \<Rightarrow>
                      (file, case parse_diff_edit_commands env ops content intervals of
                               Inl e \<Rightarrow> [] | Inr c \<Rightarrow> c))
               else (file, case parse_edit_commands env ops content of
                             Inl e \<Rightarrow> [] | Inr c \<Rightarrow> c)))"
  by (simp add: edit_first_file_def split: sum.splits option.splits)

lemma edit_first_file_later:
  "edit_first_file env ((key, ops) # later) file_contents file_loc_intervals diff_format =
   edit_first_file (env\<lparr>split_edit_multifile_commands := f\<rparr>) [(key, ops)] file_contents
     file_loc_intervals diff_format"
  by (simp add: edit_first_file_Cons cong: sum.case_cong option.case_cong if_cong)

lemma post_process_multifile_repair_split:
  assumes "language = ''python'' \<or> language = ''java''"
    and "(if language = ''python'' then extract_python_blocks env raw_output
          else extract_java_blocks env raw_output) = Inr commands"
    and "split_edit_multifile_commands env commands diff_format = Inr file_to_commands"
  shows "post_process_multifile_repair env raw_output file_contents file_loc_intervals
           language diff_format =
         Inr (edit_first_file env file_to_commands file_contents file_loc_intervals diff_format)"
  using assms by (auto simp: post_process_multifile_repair_def)

text \<open>
  Claim C1: when the parsed response maps several files to edit commands, the result is
  the one obtained from the first key and its commands alone: it does not change when
  every later key is removed, the returned \<open>edited_file\<close> is the file the first key names
  and the new content is what the commands of the first key make of that file.
\<close>

theorem first_file_only:
  assumes "language = ''python'' \<or> language = ''java''"
    and "(if language = ''python'' then extract_python_blocks env raw_output
          else extract_java_blocks env raw_output) = Inr commands"
    and "split_edit_multifile_commands env commands diff_format = Inr ((key, ops) # later)"
  shows "post_process_multifile_repair env raw_output file_contents file_loc_intervals
           language diff_format =
         post_process_multifile_repair
           (env\<lparr>split_edit_multifile_commands := \<lambda>cs d. Inr [(key, ops)]\<rparr>)
           raw_output file_contents file_loc_intervals language diff_format \<and>
         (\<forall>file. py_eval env key = Inr file \<longrightarrow>
            (\<exists>new_content.
               post_process_multifile_repair env raw_output file_contents file_loc_intervals
                 language diff_format = Inr (file, new_content) \<and>
               (\<forall>content. file_contents file = Some content \<longrightarrow>
                  (\<not> diff_format \<longrightarrow>
                     new_content = (case parse_edit_commands env ops content of
                                      Inl e \<Rightarrow> [] | Inr c \<Rightarrow> c)) \<and>
                  (\<forall>intervals. diff_format \<and> file_loc_intervals file = Some intervals \<longrightarrow>
                     new_content = (case parse_diff_edit_commands env ops content intervals of
                                      Inl e \<Rightarrow> [] | Inr c \<Rightarrow> c)))))"
proof -
  let ?env' = "env\<lparr>split_edit_multifile_commands := \<lambda>cs d. Inr [(key, ops)]\<rparr>"
  let ?r = "post_process_multifile_repair env raw_output file_contents file_loc_intervals
              language diff_format"
  have r: "?r = Inr (edit_first_file env ((key, ops) # later) file_contents file_loc_intervals
                       diff_format)"
    using assms by (rule post_process_multifile_repair_split)
  have "(if language = ''python'' then extract_python_blocks ?env' raw_output
         else extract_java_blocks ?env' raw_output) = Inr commands"
    using assms(2) by (simp split: if_splits)
  moreover have "split_edit_multifile_commands ?env' commands diff_format = Inr [(key, ops)]"
    by simp
  ultimately have r': "post_process_multifile_repair ?env' raw_output file_contents
         file_loc_intervals language diff_format =
       Inr (edit_first_file ?env' [(key, ops)] file_contents file_loc_intervals diff_format)"
    using assms(1) by (intro post_process_multifile_repair_split)
  have same: "?r = post_process_multifile_repair ?env' raw_output file_contents
                     file_loc_intervals language diff_format"
    unfolding r r' using edit_first_file_later[of env key ops later] by simp
  have applied: "\<exists>new_content. ?r = Inr (fl, new_content) \<and>
          (\<forall>content. file_contents fl = Some content \<longrightarrow>
             (\<not> diff_format \<longrightarrow>
                new_content = (case parse_edit_commands env ops content of
                                 Inl e \<Rightarrow> [] | Inr c \<Rightarrow> c)) \<and>
             (\<forall>intervals. diff_format \<and> file_loc_intervals fl = Some intervals \<longrightarrow>
                new_content = (case parse_diff_edit_commands env ops content intervals of
                                 Inl e \<Rightarrow> [] | Inr c \<Rightarrow> c)))"
    if "py_eval env key = Inr fl" for fl
    unfolding r edit_first_file_Cons using that
    by (cases "file_contents fl"; cases "file_loc_intervals fl"; simp)
  from same applied show ?thesis by blast
qed


lemma sample_eval_a: "sample_eval (CHR 0x27 # ''a.py'' @ [CHR 0x27]) = Inr ''a.py''"
  by (simp add: sample_eval_def)

theorem first_file_only_witness:
  "post_process_multifile_repair (sample_env (\<lambda>c. ''x = 2'')) ''edit'' sample_files Map.empty
     ''python'' False = Inr (''a.py'', ''x = 2'')"
proof -
  let ?env = "sample_env (\<lambda>c. ''x = 2'')"
  let ?key = "CHR 0x27 # ''a.py'' @ [CHR 0x27]"
  have 1: "''python'' = ''python'' \<or> ''python'' = ''java''" by simp
  have 2: "(if ''python'' = ''python'' then extract_python_blocks ?env ''edit''
            else extract_java_blocks ?env ''edit'') = Inr [''edit'']"
    by (simp add: sample_env_def)
  have 3: "split_edit_multifile_commands ?env [''edit''] False =
             Inr ((?key, [''edit'']) # [(CHR 0x27 # ''b.py'' @ [CHR 0x27], [''other''])])"
    by (simp add: sample_env_def)
  have ev: "py_eval ?env ?key = Inr ''a.py''"
    using sample_eval_a by (simp add: sample_env_def)
  have fc: "sample_files ''a.py'' = Some ''x = 1''" by (simp add: sample_files_def)
  have pe: "parse_edit_commands ?env [''edit''] ''x = 1'' = Inr ''x = 2''"
    by (simp add: sample_env_def)
  from first_file_only [OF 1 2 3, of sample_files Map.empty] ev
  obtain new_content where
    r: "post_process_multifile_repair ?env ''edit'' sample_files Map.empty ''python'' False =
          Inr (''a.py'', new_content)"
    and n: "\<forall>content. sample_files ''a.py'' = Some content \<longrightarrow>
              (\<not> False \<longrightarrow> new_content = (case parse_edit_commands ?env [''edit''] content of
                                              Inl e \<Rightarrow> [] | Inr c \<Rightarrow> c)) \<and>
              (\<forall>intervals. False \<and> Map.empty ''a.py'' = Some intervals \<longrightarrow>
                 new_content = (case parse_diff_edit_commands ?env [''edit''] content intervals of
                                  Inl e \<Rightarrow> [] | Inr c \<Rightarrow> c))"
    by blast
  from n fc pe have "new_content = ''x = 2''" by simp
  with r show ?thesis by simp
qed

text \<open>
  Claim C3: for an edited file of the content map, the final diff is not empty exactly
  when the new content passes the syntax check and differs from the original by more than
  blank lines; a new content that is the original with a line feed added is rejected; the
  raw diff is produced whatever the checks say.
\<close>

theorem validation_accepts_iff:
  assumes "post_process_multifile_repair env raw_output file_contents file_loc_intervals
             language diff_format = Inr (edited_file, new_content)"
    and "file_contents edited_file = Some content"
    and "fake_git_repo env ''playground'' edited_file content new_content = Inr (git_diff, f_path)"
    and "post_process_raw_output env raw_output file_contents file_loc_intervals
           language diff_format = (git_diffs, raw_git_diffs, content')"
  shows "raw_git_diffs = LF # py_replace no_newline_marker [] git_diff \<and> content' = content \<and>
         (\<forall>syntax_success lint_success.
            check_syntax env new_content = Inr syntax_success \<and>
            lint_code env ''playground'' ''test.py'' new_content content = Inr lint_success \<longrightarrow>
            (git_diffs \<noteq> [] \<longleftrightarrow>
               syntax_success \<and> \<not> check_code_differ_by_just_empty_lines new_content content) \<and>
            (git_diffs \<noteq> [] \<longrightarrow> git_diffs = raw_git_diffs) \<and>
            (new_content = content @ [LF] \<longrightarrow> git_diffs = []))"
proof -
  have tl: "check_code_differ_by_just_empty_lines (content @ [LF]) content"
    by (simp add: check_code_differ_by_just_empty_lines_def strip_blank_lines_trailing_LF)
  from assms have out: "(git_diffs, raw_git_diffs, content') =
      (let raw = [] @ [LF] @ py_replace no_newline_marker [] git_diff
       in case check_syntax env new_content of
            Inl e \<Rightarrow> ([], raw, content)
          | Inr syntax_success \<Rightarrow>
              (case lint_code env ''playground'' ''test.py'' new_content content of
                 Inl e \<Rightarrow> ([], raw, content)
               | Inr lint_success \<Rightarrow>
                   (let differ_by_empty_lines =
                          check_code_differ_by_just_empty_lines new_content content
                    in if syntax_success \<and> \<not> differ_by_empty_lines
                       then (raw, raw, content)
                       else ([], raw, content))))"
    by (simp add: post_process_raw_output_def)
  have raw: "raw_git_diffs = LF # py_replace no_newline_marker [] git_diff"
    using out by (simp add: Let_def split: sum.splits if_splits)
  have rest: "(git_diffs \<noteq> [] \<longleftrightarrow>
               syntax_success \<and> \<not> check_code_differ_by_just_empty_lines new_content content) \<and>
            (git_diffs \<noteq> [] \<longrightarrow> git_diffs = raw_git_diffs) \<and>
            (new_content = content @ [LF] \<longrightarrow> git_diffs = [])"
    if "check_syntax env new_content = Inr syntax_success"
      and "lint_code env ''playground'' ''test.py'' new_content content = Inr lint_success"
    for syntax_success lint_success
    using out that tl by (auto simp: Let_def split: if_splits)
  have "content' = content"
    using out by (simp add: Let_def split: sum.splits if_splits)
  with raw rest show ?thesis by blast
qed


lemma sample_repair:
  "post_process_multifile_repair (sample_env patch) ''edit'' sample_files Map.empty ''python'' False =
     Inr (''a.py'', patch ''x = 1'')"
  by (simp add: post_process_multifile_repair_def edit_first_file_def sample_env_def
        sample_eval_def sample_files_def)

lemma sample_validation:
  "sample_files ''a.py'' = Some ''x = 1''"
  "fake_git_repo (sample_env patch) ''playground'' ''a.py'' ''x = 1'' (patch ''x = 1'') =
     Inr (''--- x = 1'' @ [LF] @ ''+++ '' @ patch ''x = 1'', ''a.py'')"
  "check_syntax (sample_env patch) code = Inr True"
  "lint_code (sample_env patch) ''playground'' ''test.py'' code ''x = 1'' = Inr True"
  by (simp_all add: sample_env_def sample_files_def)

theorem validation_accepts_iff_witness:
  "fst (post_process_raw_output (sample_env (\<lambda>c. c @ [LF])) ''edit'' sample_files Map.empty
          ''python'' False) = [] \<and>
   fst (snd (post_process_raw_output (sample_env (\<lambda>c. c @ [LF])) ''edit'' sample_files Map.empty
          ''python'' False)) \<noteq> [] \<and>
   fst (post_process_raw_output (sample_env (\<lambda>c. ''x = 2'')) ''edit'' sample_files Map.empty
          ''python'' False) \<noteq> []"
proof -
  obtain g r c where out:
    "post_process_raw_output (sample_env (\<lambda>c. c @ [LF])) ''edit'' sample_files Map.empty
       ''python'' False = (g, r, c)"
    by (metis prod_cases3)
  note v = validation_accepts_iff
             [OF sample_repair [of "\<lambda>c. c @ [LF]"] sample_validation(1)
                 sample_validation(2) [of "\<lambda>c. c @ [LF]"] out]
  have "g = []"
    using v sample_validation(3) [of "\<lambda>c. c @ [LF]"] sample_validation(4) [of "\<lambda>c. c @ [LF]"]
    by auto
  moreover have "r \<noteq> []" using v by simp
  moreover
  obtain g' r' c' where out':
    "post_process_raw_output (sample_env (\<lambda>c. ''x = 2'')) ''edit'' sample_files Map.empty
       ''python'' False = (g', r', c')"
    by (metis prod_cases3)
  note v' = validation_accepts_iff
              [OF sample_repair [of "\<lambda>c. ''x = 2''"] sample_validation(1)
                  sample_validation(2) [of "\<lambda>c. ''x = 2''"] out']
  have d: "\<not> check_code_differ_by_just_empty_lines ''x = 2'' ''x = 1''"
    by (simp add: check_code_differ_by_just_empty_lines_def strip_blank_lines_def splitlines_def
          is_space_def is_linebreak_def)
  have "g' \<noteq> []"
    using v' sample_validation(3) [of "\<lambda>c. ''x = 2''"] sample_validation(4) [of "\<lambda>c. ''x = 2''"] d
    by auto
  ultimately show ?thesis using out out' by simp
qed

section \<open>Properties of the Python parser\<close>

text \<open>
  Claim C2, as amended: when the text does not parse (or the file cannot be read), the
  Python parser returns no class, no function and the empty string: the lines of the file
  are not part of the result.
\<close>

theorem parse_python_file_syntax_error:
  "(ast_parse content = Inl e \<longrightarrow>
      parse_python_file ast_parse read_file file_path (Some content) = ([], [], Str [])) \<and>
   (read_file file_path = Inr content \<and> ast_parse content = Inl e \<longrightarrow>
      parse_python_file ast_parse read_file file_path None = ([], [], Str [])) \<and>
   (read_file file_path = Inl e \<longrightarrow>
      parse_python_file ast_parse read_file file_path None = ([], [], Str []))"
  by (simp add: parse_python_file_def)

theorem parse_python_file_syntax_error_witness:
  "parse_python_file (syntax_error_on ''def f(:'')
     unreadable ''m.py'' (Some ''def f(:'') = ([], [], Str [])"
  using parse_python_file_syntax_error
          [of "syntax_error_on ''def f(:''" "''def f(:''" SyntaxError
              unreadable "''m.py''"]
  by (simp add: syntax_error_on_def)

text \<open>
  Claim C2, as stated, fails: for a text with a syntax error the third component of the
  result is the empty string, not the one line of the text.
\<close>

theorem parse_python_file_drops_lines:
  "parse_python_file (syntax_error_on ''def f(:'')
     unreadable ''m.py'' (Some ''def f(:'') = ([], [], Str []) \<and>
   splitlines ''def f(:'' = [''def f(:''] \<and>
   snd (snd (parse_python_file (syntax_error_on ''def f(:'')
     unreadable ''m.py'' (Some ''def f(:''))) \<noteq> StrList (splitlines ''def f(:'')"
  by (simp add: parse_python_file_def splitlines_def is_linebreak_def syntax_error_on_def)










section \<open>Properties of the Java parser\<close>

lemma chained_snoc:
  "chained (cs @ [d]) \<longleftrightarrow> chained cs \<and> (cs \<noteq> [] \<longrightarrow> end_line (last cs) + 1 = start_line d)"
  by (induction cs rule: chained.induct) auto

lemma chained_nth:
  "chained cs \<Longrightarrow> Suc k < length cs \<Longrightarrow> end_line (cs ! k) + 1 = start_line (cs ! Suc k)"
proof (induction cs arbitrary: k rule: chained.induct)
  case (3 c d cs)
  then show ?case by (cases k) auto
qed simp_all

lemma chained_last_before:
  "chained cs \<Longrightarrow> \<forall>c\<in>set cs. start_line c \<le> end_line c \<Longrightarrow> c \<in> set cs \<Longrightarrow>
   start_line c \<le> j \<Longrightarrow> j \<le> end_line (last cs) \<Longrightarrow>
   \<forall>d\<in>set cs. start_line d \<le> j \<longrightarrow> start_line d \<le> start_line c \<Longrightarrow>
   j \<le> end_line c"
proof (induction cs rule: chained.induct)
  case 1
  then show ?case by simp
next
  case (2 c')
  then show ?case by simp
next
  case (3 c' d cs)
  show ?case
  proof (cases "c = c'")
    case True
    have "start_line c' \<le> end_line c'" using "3.prems"(2) by simp
    moreover have "end_line c' + 1 = start_line d" using "3.prems"(1) by simp
    moreover have "start_line d \<le> j \<longrightarrow> start_line d \<le> start_line c'"
      using "3.prems"(6) True by simp
    ultimately show ?thesis using True by arith
  next
    case False
    then have "c \<in> set (d # cs)" using "3.prems"(3) by simp
    moreover have "chained (d # cs)" using "3.prems"(1) by simp
    moreover have "\<forall>c\<in>set (d # cs). start_line c \<le> end_line c" using "3.prems"(2) by simp
    moreover have "j \<le> end_line (last (d # cs))" using "3.prems"(5) by simp
    moreover have "\<forall>x\<in>set (d # cs). start_line x \<le> j \<longrightarrow> start_line x \<le> start_line c"
      using "3.prems"(6) by simp
    ultimately show ?thesis using "3.prems"(4) by (intro "3.IH")
  qed
qed

lemma class_match_nonempty: "class_match line = Some nm \<Longrightarrow> nm \<noteq> []"
  by (auto simp: class_match_def Let_def split: if_splits list.splits)

lemma open_interval_succ: "{i<..<i + 1} = ({} :: int set)"
  by auto

lemma java_inv_step_class:
  assumes "java_inv all_lines i ci mi cur" and "1 \<le> i" and "i \<le> int (length all_lines)"
    and "class_match (all_lines ! nat (i - 1)) = Some nm"
  shows "java_inv all_lines (i + 1)
           (case cur of
              None \<Rightarrow> ci
            | Some (current_class, class_start_line) \<Rightarrow>
                if current_class \<noteq> [] then
                  ci @ [\<lparr>name = current_class, start_line = class_start_line, end_line = i - 1,
                         text = py_slice all_lines (class_start_line - 1) (i - 1)\<rparr>]
                else ci)
           mi (Some (nm, i))"
proof (cases cur)
  case None
  from assms(1) have parts: "inv_classes all_lines i ci" "chained ci" "inv_methods all_lines i mi"
    "inv_headers all_lines i ci cur" "inv_current all_lines i ci cur"
    by (simp_all add: java_inv_def)
  have ci: "ci = []" using parts(5) None by (simp add: inv_current_def)
  have "inv_classes all_lines (i + 1) ci" using ci by (simp add: inv_classes_def)
  moreover have "inv_methods all_lines (i + 1) mi"
    using parts(3) by (auto simp: inv_methods_def)
  moreover have "inv_headers all_lines (i + 1) ci (Some (nm, i))"
    unfolding inv_headers_def
  proof (intro ballI impI)
    fix j assume j: "j \<in> {1..<i + 1}" "class_match (all_lines ! nat (j - 1)) \<noteq> None"
    show "(\<exists>c\<in>set ci. start_line c = j) \<or> (\<exists>c. Some (nm, i) = Some (c, j))"
    proof (cases "j = i")
      case True
      then show ?thesis by simp
    next
      case False
      then have "j \<in> {1..<i}" using j(1) by simp
      then show ?thesis using parts(4) j(2) None by (auto simp: inv_headers_def)
    qed
  qed
  moreover have "inv_current all_lines (i + 1) ci (Some (nm, i))"
    using assms(2,4) ci by (simp add: inv_current_def class_match_nonempty open_interval_succ)
  ultimately show ?thesis using None parts(2) by (simp add: java_inv_def)
next
  case (Some p)
  obtain c s where p: "p = (c, s)" by (cases p)
  from assms(1) have parts: "inv_classes all_lines i ci" "chained ci" "inv_methods all_lines i mi"
    "inv_headers all_lines i ci cur" "inv_current all_lines i ci cur"
    by (simp_all add: java_inv_def)
  have cur: "c \<noteq> []" "1 \<le> s" "s < i" "ci \<noteq> [] \<longrightarrow> end_line (last ci) + 1 = s"
    "class_match (all_lines ! nat (s - 1)) = Some c"
    "\<forall>j\<in>{s<..<i}. class_match (all_lines ! nat (j - 1)) = None"
    using parts(5) Some p by (simp_all add: inv_current_def)
  let ?new = "\<lparr>name = c, start_line = s, end_line = i - 1,
                text = py_slice all_lines (s - 1) (i - 1)\<rparr>"
  have new: "1 \<le> start_line ?new \<and> start_line ?new \<le> end_line ?new \<and> end_line ?new < i + 1 \<and>
        class_match (all_lines ! nat (start_line ?new - 1)) = Some (name ?new) \<and>
        (\<forall>j\<in>{start_line ?new<..end_line ?new}. class_match (all_lines ! nat (j - 1)) = None) \<and>
        class_match (all_lines ! nat (end_line ?new)) \<noteq> None"
    using cur assms(4) by auto
  have "inv_classes all_lines (i + 1) (ci @ [?new])"
    unfolding inv_classes_def
  proof
    fix d assume "d \<in> set (ci @ [?new])"
    then consider "d \<in> set ci" | "d = ?new" by auto
    then show "1 \<le> start_line d \<and> start_line d \<le> end_line d \<and> end_line d < i + 1 \<and>
        class_match (all_lines ! nat (start_line d - 1)) = Some (name d) \<and>
        (\<forall>j\<in>{start_line d<..end_line d}. class_match (all_lines ! nat (j - 1)) = None) \<and>
        class_match (all_lines ! nat (end_line d)) \<noteq> None"
    proof cases
      case 1
      with parts(1)[unfolded inv_classes_def]
      have "1 \<le> start_line d \<and> start_line d \<le> end_line d \<and> end_line d < i \<and>
        class_match (all_lines ! nat (start_line d - 1)) = Some (name d) \<and>
        (\<forall>j\<in>{start_line d<..end_line d}. class_match (all_lines ! nat (j - 1)) = None) \<and>
        class_match (all_lines ! nat (end_line d)) \<noteq> None"
        by (rule bspec)
      then show ?thesis by simp
    next
      case 2
      then show ?thesis using new by simp
    qed
  qed
  moreover have "chained (ci @ [?new])"
    using parts(2) cur(4) by (simp add: chained_snoc)
  moreover have "inv_methods all_lines (i + 1) mi"
    using parts(3) by (auto simp: inv_methods_def)
  moreover have "inv_headers all_lines (i + 1) (ci @ [?new]) (Some (nm, i))"
    unfolding inv_headers_def
  proof (intro ballI impI)
    fix j assume j: "j \<in> {1..<i + 1}" "class_match (all_lines ! nat (j - 1)) \<noteq> None"
    show "(\<exists>d\<in>set (ci @ [?new]). start_line d = j) \<or> (\<exists>c'. Some (nm, i) = Some (c', j))"
    proof (cases "j = i")
      case True
      then show ?thesis by simp
    next
      case False
      then have "j \<in> {1..<i}" using j(1) by simp
      then have "(\<exists>d\<in>set ci. start_line d = j) \<or> (\<exists>c'. cur = Some (c', j))"
        using parts(4) j(2) by (simp add: inv_headers_def)
      then show ?thesis using Some p by auto
    qed
  qed
  moreover have "inv_current all_lines (i + 1) (ci @ [?new]) (Some (nm, i))"
    using assms(2,4) by (simp add: inv_current_def class_match_nonempty open_interval_succ)
  ultimately show ?thesis using Some p cur(1) by (simp add: java_inv_def)
qed

lemma java_inv_no_class:
  assumes "java_inv all_lines i ci mi cur" and "1 \<le> i"
    and "class_match (all_lines ! nat (i - 1)) = None"
  shows "inv_classes all_lines (i + 1) ci" and "inv_headers all_lines (i + 1) ci cur"
    and "inv_current all_lines (i + 1) ci cur" and "chained ci"
proof -
  from assms(1) have parts: "inv_classes all_lines i ci" "chained ci"
    "inv_headers all_lines i ci cur" "inv_current all_lines i ci cur"
    by (simp_all add: java_inv_def)
  show "chained ci" by (rule parts(2))
  show "inv_classes all_lines (i + 1) ci"
    unfolding inv_classes_def
  proof
    fix d assume "d \<in> set ci"
    with parts(1)[unfolded inv_classes_def]
    have "1 \<le> start_line d \<and> start_line d \<le> end_line d \<and> end_line d < i \<and>
        class_match (all_lines ! nat (start_line d - 1)) = Some (name d) \<and>
        (\<forall>j\<in>{start_line d<..end_line d}. class_match (all_lines ! nat (j - 1)) = None) \<and>
        class_match (all_lines ! nat (end_line d)) \<noteq> None"
      by (rule bspec)
    then show "1 \<le> start_line d \<and> start_line d \<le> end_line d \<and> end_line d < i + 1 \<and>
        class_match (all_lines ! nat (start_line d - 1)) = Some (name d) \<and>
        (\<forall>j\<in>{start_line d<..end_line d}. class_match (all_lines ! nat (j - 1)) = None) \<and>
        class_match (all_lines ! nat (end_line d)) \<noteq> None"
      by simp
  qed
  show "inv_headers all_lines (i + 1) ci cur"
    unfolding inv_headers_def
  proof (intro ballI impI)
    fix j assume j: "j \<in> {1..<i + 1}" "class_match (all_lines ! nat (j - 1)) \<noteq> None"
    then have "j \<noteq> i" using assms(3) by auto
    then have "j \<in> {1..<i}" using j(1) by simp
    then show "(\<exists>c\<in>set ci. start_line c = j) \<or> (\<exists>c. cur = Some (c, j))"
      using parts(3) j(2) by (simp add: inv_headers_def)
  qed
  show "inv_current all_lines (i + 1) ci cur"
  proof (cases cur)
    case None
    then show ?thesis using parts(4) by (simp add: inv_current_def)
  next
    case (Some p)
    obtain c s where p: "p = (c, s)" by (cases p)
    have cur: "c \<noteq> []" "1 \<le> s" "s < i" "ci \<noteq> [] \<longrightarrow> end_line (last ci) + 1 = s"
      "class_match (all_lines ! nat (s - 1)) = Some c"
      "\<forall>j\<in>{s<..<i}. class_match (all_lines ! nat (j - 1)) = None"
      using parts(4) Some p by (simp_all add: inv_current_def)
    have "\<forall>j\<in>{s<..<i + 1}. class_match (all_lines ! nat (j - 1)) = None"
    proof
      fix j assume "j \<in> {s<..<i + 1}"
      then consider "j = i" | "j \<in> {s<..<i}" by force
      then show "class_match (all_lines ! nat (j - 1)) = None"
        using assms(3) cur(6) by cases auto
    qed
    then show ?thesis using cur Some p by (simp add: inv_current_def)
  qed
qed

lemma java_inv_step_method:
  assumes "java_inv all_lines i ci mi cur" and "1 \<le> i" and "line = all_lines ! nat (i - 1)"
    and "class_match line = None" and "method_match line = Some nm"
  shows "java_inv all_lines (i + 1) ci
           (mi @ [\<lparr>method_name = nm, method_start_line = i, method_text = [line]\<rparr>]) cur"
proof -
  have "inv_methods all_lines i mi" using assms(1) by (simp add: java_inv_def)
  then have "inv_methods all_lines (i + 1)
           (mi @ [\<lparr>method_name = nm, method_start_line = i, method_text = [line]\<rparr>])"
    using assms(2,3,4,5) by (auto simp: inv_methods_def)
  then show ?thesis
    using java_inv_no_class[OF assms(1,2) assms(4)[unfolded assms(3)]]
    by (simp add: java_inv_def)
qed

lemma java_inv_step_skip:
  assumes "java_inv all_lines i ci mi cur" and "1 \<le> i"
    and "class_match (all_lines ! nat (i - 1)) = None"
  shows "java_inv all_lines (i + 1) ci mi cur"
proof -
  have "inv_methods all_lines i mi" using assms(1) by (simp add: java_inv_def)
  then have "inv_methods all_lines (i + 1) mi" by (auto simp: inv_methods_def)
  then show ?thesis
    using java_inv_no_class[OF assms] by (simp add: java_inv_def)
qed

lemma parse_java_loop_inv:
  "java_inv all_lines i ci mi cur \<Longrightarrow> 1 \<le> i \<Longrightarrow> i \<le> int (length all_lines) + 1 \<Longrightarrow>
   rest = drop (nat (i - 1)) all_lines \<Longrightarrow>
   parse_java_loop all_lines i rest ci mi cur = (ci', mi', cur') \<Longrightarrow>
   java_inv all_lines (int (length all_lines) + 1) ci' mi' cur'"
proof (induction rest arbitrary: i ci mi cur)
  case Nil
  then have "i = int (length all_lines) + 1" by simp
  moreover have "(ci', mi', cur') = (ci, mi, cur)" using Nil by simp
  ultimately show ?case using Nil(1) by simp
next
  case (Cons line rest)
  have lt: "nat (i - 1) < length all_lines"
    using Cons.prems(4) by (metis drop_eq_Nil list.distinct(1) not_le)
  then have i_le: "i \<le> int (length all_lines)" using Cons.prems(2) by simp
  have line: "line = all_lines ! nat (i - 1)"
    using Cons.prems(4) lt by (metis Cons_nth_drop_Suc list.inject)
  have rest: "rest = drop (nat (i + 1 - 1)) all_lines"
  proof -
    have "drop (Suc (nat (i - 1))) all_lines = rest"
      using Cons.prems(4) lt by (metis Cons_nth_drop_Suc list.inject)
    moreover have "Suc (nat (i - 1)) = nat (i + 1 - 1)" using Cons.prems(2) by simp
    ultimately show ?thesis by simp
  qed
  have i1: "1 \<le> i + 1" "i + 1 \<le> int (length all_lines) + 1"
    using Cons.prems(2) i_le by simp_all
  show ?case
  proof (cases "class_match line")
    case (Some nm)
    note inv = java_inv_step_class[OF Cons.prems(1,2) i_le Some[unfolded line]]
    show ?thesis
      using Cons.prems(5) Some
      by (intro Cons.IH[OF inv i1 rest]) simp
  next
    case None
    show ?thesis
    proof (cases "method_match line")
      case (Some nm)
      note inv = java_inv_step_method[OF Cons.prems(1,2) line None Some]
      show ?thesis
        using Cons.prems(5) Some None
        by (intro Cons.IH[OF inv i1 rest]) simp
    next
      case None': None
      note inv = java_inv_step_skip[OF Cons.prems(1,2) None[unfolded line]]
      show ?thesis
        using Cons.prems(5) None None'
        by (intro Cons.IH[OF inv i1 rest]) simp
    qed
  qed
qed

lemma java_inv_init: "java_inv all_lines 1 [] [] None"
  by (simp add: java_inv_def inv_classes_def inv_methods_def inv_headers_def inv_current_def)



lemma parse_java_lines_props:
  assumes "parse_java_lines lines = (classes, meths, ls)"
  shows "ls = lines"
    and "\<forall>c\<in>set classes. 1 \<le> start_line c \<and> start_line c \<le> end_line c \<and>
           end_line c \<le> int (length lines)"
    and "chained classes"
    and "classes \<noteq> [] \<longrightarrow> end_line (last classes) = int (length lines)"
    and "\<forall>m\<in>set meths. 1 \<le> method_start_line m \<and> method_start_line m \<le> int (length lines) \<and>
           method_text m = [lines ! nat (method_start_line m - 1)] \<and>
           method_match (lines ! nat (method_start_line m - 1)) = Some (method_name m) \<and>
           class_match (lines ! nat (method_start_line m - 1)) = None"
    and "\<forall>j\<in>{1..int (length lines)}. class_match (lines ! nat (j - 1)) \<noteq> None \<longrightarrow>
           (\<exists>c\<in>set classes. start_line c = j)"
    and "\<forall>c\<in>set classes. class_match (lines ! nat (start_line c - 1)) = Some (name c)"
    and "\<forall>c\<in>set classes.
           (\<forall>j\<in>{start_line c<..end_line c}. class_match (lines ! nat (j - 1)) = None) \<and>
           (end_line c < int (length lines) \<longrightarrow> class_match (lines ! nat (end_line c)) \<noteq> None)"
proof -
  let ?n = "int (length lines)"
  obtain ci mi cur where loop: "parse_java_loop lines 1 lines [] [] None = (ci, mi, cur)"
    by (metis prod_cases3)
  have inv: "java_inv lines (?n + 1) ci mi cur"
    using java_inv_init _ _ _ loop by (rule parse_java_loop_inv) simp_all
  then have parts: "inv_classes lines (?n + 1) ci" "chained ci" "inv_methods lines (?n + 1) mi"
    "inv_headers lines (?n + 1) ci cur" "inv_current lines (?n + 1) ci cur"
    by (simp_all add: java_inv_def)
  have res: "(classes, meths, ls) =
      (case cur of
         None \<Rightarrow> (ci, mi, lines)
       | Some (current_class, class_start_line) \<Rightarrow>
           if current_class \<noteq> [] then
             (ci @ [\<lparr>name = current_class, start_line = class_start_line,
                     end_line = ?n,
                     text = py_slice_from lines (class_start_line - 1)\<rparr>], mi, lines)
           else (ci, mi, lines))"
    using assms loop by (simp add: parse_java_lines_def)
  have old: "1 \<le> start_line d \<and> start_line d \<le> end_line d \<and> end_line d \<le> ?n \<and>
        class_match (lines ! nat (start_line d - 1)) = Some (name d) \<and>
        (\<forall>j\<in>{start_line d<..end_line d}. class_match (lines ! nat (j - 1)) = None) \<and>
        (end_line d < ?n \<longrightarrow> class_match (lines ! nat (end_line d)) \<noteq> None)"
    if "d \<in> set ci" for d
  proof -
    from parts(1)[unfolded inv_classes_def] that
    have "1 \<le> start_line d \<and> start_line d \<le> end_line d \<and> end_line d < ?n + 1 \<and>
        class_match (lines ! nat (start_line d - 1)) = Some (name d) \<and>
        (\<forall>j\<in>{start_line d<..end_line d}. class_match (lines ! nat (j - 1)) = None) \<and>
        class_match (lines ! nat (end_line d)) \<noteq> None"
      by (rule bspec)
    then show ?thesis by simp
  qed
  have m: "meths = mi" and l: "ls = lines"
    using res by (auto split: option.splits if_splits)
  show "ls = lines" by (rule l)
  show "\<forall>m\<in>set meths. 1 \<le> method_start_line m \<and> method_start_line m \<le> ?n \<and>
           method_text m = [lines ! nat (method_start_line m - 1)] \<and>
           method_match (lines ! nat (method_start_line m - 1)) = Some (method_name m) \<and>
           class_match (lines ! nat (method_start_line m - 1)) = None"
  proof
    fix x assume "x \<in> set meths"
    then have "x \<in> set mi" using m by simp
    with parts(3)[unfolded inv_methods_def]
    have "1 \<le> method_start_line x \<and> method_start_line x < ?n + 1 \<and>
        method_text x = [lines ! nat (method_start_line x - 1)] \<and>
        method_match (lines ! nat (method_start_line x - 1)) = Some (method_name x) \<and>
        class_match (lines ! nat (method_start_line x - 1)) = None"
      by (rule bspec)
    then show "1 \<le> method_start_line x \<and> method_start_line x \<le> ?n \<and>
           method_text x = [lines ! nat (method_start_line x - 1)] \<and>
           method_match (lines ! nat (method_start_line x - 1)) = Some (method_name x) \<and>
           class_match (lines ! nat (method_start_line x - 1)) = None"
      by simp
  qed
  have big: "\<forall>c\<in>set classes. 1 \<le> start_line c \<and> start_line c \<le> end_line c \<and>
           end_line c \<le> ?n \<and>
           class_match (lines ! nat (start_line c - 1)) = Some (name c) \<and>
           (\<forall>j\<in>{start_line c<..end_line c}. class_match (lines ! nat (j - 1)) = None) \<and>
           (end_line c < ?n \<longrightarrow> class_match (lines ! nat (end_line c)) \<noteq> None)"
  proof (cases cur)
    case None
    then have "classes = ci" using res by simp
    then show ?thesis using old by blast
  next
    case (Some p)
    obtain c s where p: "p = (c, s)" by (cases p)
    have cur: "c \<noteq> []" "1 \<le> s" "s < ?n + 1"
      "class_match (lines ! nat (s - 1)) = Some c"
      "\<forall>j\<in>{s<..<?n + 1}. class_match (lines ! nat (j - 1)) = None"
      using parts(5) Some p by (simp_all add: inv_current_def)
    let ?new = "\<lparr>name = c, start_line = s, end_line = ?n,
                  text = py_slice_from lines (s - 1)\<rparr>"
    have cl: "classes = ci @ [?new]" using res Some p cur(1) by simp
    have "\<forall>j\<in>{s<..?n}. class_match (lines ! nat (j - 1)) = None"
      using cur(5) by auto
    then have new: "1 \<le> start_line ?new \<and> start_line ?new \<le> end_line ?new \<and> end_line ?new \<le> ?n \<and>
        class_match (lines ! nat (start_line ?new - 1)) = Some (name ?new) \<and>
        (\<forall>j\<in>{start_line ?new<..end_line ?new}. class_match (lines ! nat (j - 1)) = None) \<and>
        (end_line ?new < ?n \<longrightarrow> class_match (lines ! nat (end_line ?new)) \<noteq> None)"
      using cur by simp
    show ?thesis
    proof
      fix d assume "d \<in> set classes"
      then consider "d \<in> set ci" | "d = ?new" using cl by auto
      then show "1 \<le> start_line d \<and> start_line d \<le> end_line d \<and> end_line d \<le> ?n \<and>
        class_match (lines ! nat (start_line d - 1)) = Some (name d) \<and>
        (\<forall>j\<in>{start_line d<..end_line d}. class_match (lines ! nat (j - 1)) = None) \<and>
        (end_line d < ?n \<longrightarrow> class_match (lines ! nat (end_line d)) \<noteq> None)"
      proof cases
        case 1
        then show ?thesis by (rule old)
      next
        case 2
        then show ?thesis using new by simp
      qed
    qed
  qed
  have inst: "1 \<le> start_line c \<and> start_line c \<le> end_line c \<and>
           end_line c \<le> ?n \<and>
           class_match (lines ! nat (start_line c - 1)) = Some (name c) \<and>
           (\<forall>j\<in>{start_line c<..end_line c}. class_match (lines ! nat (j - 1)) = None) \<and>
           (end_line c < ?n \<longrightarrow> class_match (lines ! nat (end_line c)) \<noteq> None)"
    if "c \<in> set classes" for c
    using big that by (rule bspec)
  show "\<forall>c\<in>set classes. 1 \<le> start_line c \<and> start_line c \<le> end_line c \<and> end_line c \<le> ?n"
    using inst by simp
  show "\<forall>c\<in>set classes. class_match (lines ! nat (start_line c - 1)) = Some (name c)"
    using inst by simp
  show "\<forall>c\<in>set classes.
           (\<forall>j\<in>{start_line c<..end_line c}. class_match (lines ! nat (j - 1)) = None) \<and>
           (end_line c < ?n \<longrightarrow> class_match (lines ! nat (end_line c)) \<noteq> None)"
    using inst by simp
  show "chained classes"
    using res parts(2,5)
    by (auto simp: inv_current_def chained_snoc split: option.splits if_splits)
  show "classes \<noteq> [] \<longrightarrow> end_line (last classes) = ?n"
    using res parts(5) by (auto simp: inv_current_def split: option.splits if_splits)
  show "\<forall>j\<in>{1..?n}. class_match (lines ! nat (j - 1)) \<noteq> None \<longrightarrow>
           (\<exists>c\<in>set classes. start_line c = j)"
  proof (intro ballI impI)
    fix j assume j: "j \<in> {1..?n}" "class_match (lines ! nat (j - 1)) \<noteq> None"
    then have "j \<in> {1..<?n + 1}" by simp
    then have h: "(\<exists>d\<in>set ci. start_line d = j) \<or> (\<exists>c. cur = Some (c, j))"
      using parts(4) j(2) by (simp add: inv_headers_def)
    show "\<exists>c\<in>set classes. start_line c = j"
    proof (cases cur)
      case None
      then show ?thesis using h res by auto
    next
      case (Some p)
      obtain c s where p: "p = (c, s)" by (cases p)
      have "c \<noteq> []" using parts(5) Some p by (simp add: inv_current_def)
      then have "classes = ci @ [\<lparr>name = c, start_line = s, end_line = ?n,
                  text = py_slice_from lines (s - 1)\<rparr>]"
        using res Some p by simp
      then show ?thesis using h Some p by auto
    qed
  qed
qed

lemma parse_java_file_cases:
  assumes "parse_java_file readlines file_path content = (classes, meths, lines)"
  shows "(classes, meths, lines) = ([], [], []) \<or> parse_java_lines lines = (classes, meths, lines)"
proof -
  have third: "parse_java_lines ls = r \<Longrightarrow> parse_java_lines (snd (snd r)) = r" for ls r
    using parse_java_lines_props(1)[of ls "fst r" "fst (snd r)" "snd (snd r)"] by simp
  show ?thesis
    using assms third[of _ "(classes, meths, lines)"]
    by (auto simp: parse_java_file_def split: file_content.splits sum.splits)
qed

text \<open>
  Claim C4, as amended: the classes the Java parser reports are the lines of the file that
  match the class pattern, in order; each ends on the line before the next line that
  matches the class pattern (no line after its header up to its end line matches, and the
  line after its end line does), and the last class ends on the last line of the file.
\<close>

theorem java_class_end_line:
  assumes "parse_java_file readlines file_path content = (classes, meths, lines)"
  shows "(\<forall>k. Suc k < length classes \<longrightarrow>
            end_line (classes ! k) = start_line (classes ! Suc k) - 1) \<and>
         (classes \<noteq> [] \<longrightarrow> end_line (last classes) = int (length lines)) \<and>
         (\<forall>c\<in>set classes. 1 \<le> start_line c \<and> start_line c \<le> int (length lines) \<and>
            class_match (lines ! nat (start_line c - 1)) = Some (name c)) \<and>
         (\<forall>j\<in>{1..int (length lines)}. class_match (lines ! nat (j - 1)) \<noteq> None \<longrightarrow>
            (\<exists>c\<in>set classes. start_line c = j)) \<and>
         (\<forall>c\<in>set classes.
            start_line c \<le> end_line c \<and> end_line c \<le> int (length lines) \<and>
            (\<forall>j\<in>{start_line c<..end_line c}. class_match (lines ! nat (j - 1)) = None) \<and>
            (end_line c < int (length lines) \<longrightarrow>
               class_match (lines ! nat (end_line c + 1 - 1)) \<noteq> None))"
proof (cases "(classes, meths, lines) = ([], [], [])")
  case True
  then show ?thesis by simp
next
  case False
  then have p: "parse_java_lines lines = (classes, meths, lines)"
    using parse_java_file_cases[OF assms] by blast
  note props = parse_java_lines_props[OF p]
  have "end_line (classes ! k) = start_line (classes ! Suc k) - 1" if "Suc k < length classes" for k
    using chained_nth[OF props(3) that] by simp
  moreover have "classes \<noteq> [] \<longrightarrow> end_line (last classes) = int (length lines)"
    by (rule props(4))
  moreover have "\<forall>c\<in>set classes. 1 \<le> start_line c \<and> start_line c \<le> int (length lines) \<and>
            class_match (lines ! nat (start_line c - 1)) = Some (name c)"
  proof
    fix c assume c: "c \<in> set classes"
    have "1 \<le> start_line c \<and> start_line c \<le> end_line c \<and> end_line c \<le> int (length lines)"
      using props(2) c by (rule bspec)
    moreover have "class_match (lines ! nat (start_line c - 1)) = Some (name c)"
      using props(7) c by (rule bspec)
    ultimately show "1 \<le> start_line c \<and> start_line c \<le> int (length lines) \<and>
            class_match (lines ! nat (start_line c - 1)) = Some (name c)"
      by simp
  qed
  moreover have "\<forall>j\<in>{1..int (length lines)}. class_match (lines ! nat (j - 1)) \<noteq> None \<longrightarrow>
            (\<exists>c\<in>set classes. start_line c = j)"
    by (rule props(6))
  moreover have "\<forall>c\<in>set classes.
            start_line c \<le> end_line c \<and> end_line c \<le> int (length lines) \<and>
            (\<forall>j\<in>{start_line c<..end_line c}. class_match (lines ! nat (j - 1)) = None) \<and>
            (end_line c < int (length lines) \<longrightarrow>
               class_match (lines ! nat (end_line c + 1 - 1)) \<noteq> None)"
  proof
    fix c assume c: "c \<in> set classes"
    have "1 \<le> start_line c \<and> start_line c \<le> end_line c \<and> end_line c \<le> int (length lines)"
      using props(2) c by (rule bspec)
    moreover have "(\<forall>j\<in>{start_line c<..end_line c}. class_match (lines ! nat (j - 1)) = None) \<and>
           (end_line c < int (length lines) \<longrightarrow> class_match (lines ! nat (end_line c)) \<noteq> None)"
      using props(8) c by (rule bspec)
    ultimately show "start_line c \<le> end_line c \<and> end_line c \<le> int (length lines) \<and>
            (\<forall>j\<in>{start_line c<..end_line c}. class_match (lines ! nat (j - 1)) = None) \<and>
            (end_line c < int (length lines) \<longrightarrow>
               class_match (lines ! nat (end_line c + 1 - 1)) \<noteq> None)"
      by simp
  qed
  ultimately show ?thesis by blast
qed

lemma splitlines_two_classes:
  "splitlines two_classes = [''class A {'', ''}'', [], ''class B {'', ''}'']"
  by (simp add: two_classes_def splitlines_def is_linebreak_def)

lemma class_match_samples:
  "class_match ''class A {'' = Some ''A''" "class_match ''class B {'' = Some ''B''"
  "class_match ''}'' = None" "class_match [] = None"
  by (simp_all add: class_match_def is_space_def is_word_def)

lemma method_match_samples: "method_match ''}'' = None" "method_match [] = None"
  by (simp_all add: method_match_def method_rest_def method_typed_def method_tail_def
        is_space_def is_word_def is_type_char_def)

lemma parse_two_classes:
  "parse_java_file unreadable ''A.java'' (ContentStr two_classes) =
     ([\<lparr>name = ''A'', start_line = 1, end_line = 3, text = [''class A {'', ''}'', []]\<rparr>,
       \<lparr>name = ''B'', start_line = 4, end_line = 5, text = [''class B {'', ''}'']\<rparr>],
      [], [''class A {'', ''}'', [], ''class B {'', ''}''])"
  by (simp add: parse_java_file_def parse_java_lines_def splitlines_two_classes
        class_match_samples method_match_samples py_slice_def py_slice_from_def py_clamp_def)

theorem java_class_end_line_witness:
  "end_line (fst (parse_java_file unreadable ''A.java'' (ContentStr two_classes)) ! 0) =
     start_line (fst (parse_java_file unreadable ''A.java'' (ContentStr two_classes)) ! 1) - 1 \<and>
   end_line (last (fst (parse_java_file unreadable ''A.java'' (ContentStr two_classes)))) = 5"
proof -
  note t = java_class_end_line [OF parse_two_classes]
  from t have "Suc 0 < length [\<lparr>name = ''A'', start_line = 1, end_line = 3, text = [''class A {'', ''}'', []]\<rparr>,
       \<lparr>name = ''B'', start_line = 4, end_line = 5, text = [''class B {'', ''}'']\<rparr>] \<longrightarrow>
     end_line ([\<lparr>name = ''A'', start_line = 1, end_line = 3, text = [''class A {'', ''}'', []]\<rparr>,
       \<lparr>name = ''B'', start_line = 4, end_line = 5, text = [''class B {'', ''}'']\<rparr>] ! 0) =
     start_line ([\<lparr>name = ''A'', start_line = 1, end_line = 3, text = [''class A {'', ''}'', []]\<rparr>,
       \<lparr>name = ''B'', start_line = 4, end_line = 5, text = [''class B {'', ''}'']\<rparr>] ! Suc 0) - 1"
    by blast
  moreover from t have "end_line (last [\<lparr>name = ''A'', start_line = 1, end_line = 3, text = [''class A {'', ''}'', []]\<rparr>,
       \<lparr>name = ''B'', start_line = 4, end_line = 5, text = [''class B {'', ''}'']\<rparr>]) =
       int (length [''class A {'', ''}'', [], ''class B {'', ''}''])"
    by simp
  ultimately show ?thesis by (simp add: parse_two_classes)
qed

text \<open>
  Claim C4, as stated, fails: with an empty line between two classes the first class is
  reported to end on line 3, the empty line, while its closing brace is on line 2.
\<close>

theorem java_class_end_line_not_closing:
  "map end_line (fst (parse_java_file unreadable ''A.java'' (ContentStr two_classes))) = [3, 5] \<and>
   spec_class_end_line (splitlines two_classes) 1 = Some 2 \<and>
   splitlines two_classes ! 1 = ''}'' \<and> splitlines two_classes ! 2 = []"
  by (simp add: parse_two_classes splitlines_two_classes spec_class_end_line_def)

section \<open>The spans of the declarations\<close>

lemma well_formed_child_nodes: "well_formed n \<Longrightarrow> \<forall>c\<in>set (child_nodes n). well_formed c"
  by (cases n) auto

lemma walk_well_formed: "\<forall>n\<in>set todo. well_formed n \<Longrightarrow> \<forall>n\<in>set (walk todo). well_formed n"
proof (induction todo rule: walk.induct)
  case 1
  then show ?case by simp
next
  case (2 node todo)
  from "2.prems" have "\<forall>n\<in>set (todo @ child_nodes node). well_formed n"
    using well_formed_child_nodes[of node] by auto
  then have "\<forall>n\<in>set (walk (todo @ child_nodes node)). well_formed n"
    by (rule "2.IH")
  with "2.prems" show ?case by simp
qed

lemma class_body_loop_spans:
  "\<forall>n\<in>set stmts. within l e n \<and> well_formed n \<Longrightarrow>
   \<forall>m\<in>set ms. l \<le> start_line m \<and> start_line m \<le> end_line m \<and> end_line m \<le> e \<Longrightarrow>
   \<forall>m\<in>set (fst (class_body_loop lines stmts ms cm)).
      l \<le> start_line m \<and> start_line m \<le> end_line m \<and> end_line m \<le> e"
proof (induction stmts arbitrary: ms cm)
  case Nil
  then show ?case by simp
next
  case (Cons n ns)
  have ns: "\<forall>n\<in>set ns. within l e n \<and> well_formed n" using Cons.prems(1) by simp
  show ?case
  proof (cases n)
    case (FunctionDef nm l' e' b)
    have "l \<le> l' \<and> l' \<le> e' \<and> e' \<le> e"
      using Cons.prems(1) FunctionDef by simp
    then have "\<forall>m\<in>set (ms @
            [\<lparr>name = nm, start_line = l', end_line = e', text = py_slice lines (l' - 1) e'\<rparr>]).
          l \<le> start_line m \<and> start_line m \<le> end_line m \<and> end_line m \<le> e"
      using Cons.prems(2) by simp
    from Cons.IH[OF ns this] show ?thesis using FunctionDef by simp
  next
    case (ClassDef nm l' e' b)
    from Cons.IH[OF ns Cons.prems(2)] show ?thesis using ClassDef by simp
  next
    case (AsyncFunctionDef nm l' e' b)
    from Cons.IH[OF ns Cons.prems(2)] show ?thesis using AsyncFunctionDef by simp
  next
    case (OtherNode b)
    from Cons.IH[OF ns Cons.prems(2)] show ?thesis using OtherNode by simp
  qed
qed

lemma visit_py_inv: "well_formed n \<Longrightarrow> py_inv st \<Longrightarrow> py_inv (visit lines st n)"
proof (cases st)
  case (fields ci fn cm)
  assume wf: "well_formed n" and inv: "py_inv st"
  show ?thesis
  proof (cases n)
    case (ClassDef nm l e stmts)
    have "\<forall>m\<in>set (fst (class_body_loop lines stmts [] cm)).
            l \<le> start_line m \<and> start_line m \<le> end_line m \<and> end_line m \<le> e"
      using wf ClassDef by (intro class_body_loop_spans) auto
    then show ?thesis
      using wf inv fields ClassDef by (auto simp: py_inv_def split_beta)
  next
    case (FunctionDef nm l e stmts)
    then show ?thesis using wf inv fields by (auto simp: py_inv_def)
  next
    case (AsyncFunctionDef nm l e stmts)
    then show ?thesis using inv fields by simp
  next
    case (OtherNode stmts)
    then show ?thesis using inv fields by simp
  qed
qed

lemma foldl_visit_py_inv:
  "\<forall>n\<in>set ns. well_formed n \<Longrightarrow> py_inv st \<Longrightarrow> py_inv (foldl (visit lines) st ns)"
  by (induction ns arbitrary: st) (simp_all add: visit_py_inv)

lemma parse_python_file_py_inv:
  assumes "\<forall>n\<in>set tree. well_formed n"
    and "(case file_content of None \<Rightarrow> read_file file_path | Some c \<Rightarrow> Inr c) = Inr content"
    and "ast_parse content = Inr tree"
    and "parse_python_file ast_parse read_file file_path file_content = (classes, funs, rest)"
  shows "py_inv (classes, funs, {})"
proof -
  let ?st = "walk_loop (splitlines content) (walk tree)"
  have "py_inv ?st"
    unfolding walk_loop_def using walk_well_formed[OF assms(1)]
    by (intro foldl_visit_py_inv) (simp_all add: py_inv_def)
  moreover have "classes = fst ?st" "funs = fst (snd ?st)"
    using assms(2,3,4) by (simp_all add: parse_python_file_def split_beta)
  ultimately show ?thesis by (simp add: py_inv_def)
qed

text \<open>
  Claim C8, as amended: for a tree with the line numbers that \<open>ast.parse\<close> gives, every
  class, method and function of the Python parser starts no later than it ends, and every
  method lies within the lines of its class. Every class of the Java parser starts no
  later than it ends, within the file. A Java method has no end line and no owner: it is
  one line of the file, which matches the method pattern and not the class pattern, and
  it lies within the reported lines of the last class header at or before it.
\<close>

theorem spans_ordered_and_nested:
  "((\<forall>n\<in>set tree. well_formed n) \<and>
    (case file_content of None \<Rightarrow> read_file file_path | Some c \<Rightarrow> Inr c) = Inr content \<and>
    ast_parse content = Inr tree \<and>
    parse_python_file ast_parse read_file file_path file_content = (classes, funs, rest) \<longrightarrow>
      (\<forall>c\<in>set classes. start_line c \<le> end_line c \<and>
         (\<forall>m\<in>set (methods c). start_line c \<le> start_line m \<and> start_line m \<le> end_line m \<and>
            end_line m \<le> end_line c)) \<and>
      (\<forall>f\<in>set funs. start_line f \<le> end_line f)) \<and>
   (parse_java_file readlines java_path java_content = (java_classes, java_methods, java_lines) \<longrightarrow>
      (\<forall>c\<in>set java_classes. 1 \<le> start_line c \<and> start_line c \<le> end_line c \<and>
         end_line c \<le> int (length java_lines)) \<and>
      (\<forall>m\<in>set java_methods.
         1 \<le> method_start_line m \<and> method_start_line m \<le> int (length java_lines) \<and>
         method_text m = [java_lines ! nat (method_start_line m - 1)] \<and>
         method_match (java_lines ! nat (method_start_line m - 1)) = Some (method_name m) \<and>
         class_match (java_lines ! nat (method_start_line m - 1)) = None \<and>
         (\<forall>c\<in>set java_classes.
            start_line c \<le> method_start_line m \<and>
            (\<forall>d\<in>set java_classes.
               start_line d \<le> method_start_line m \<longrightarrow> start_line d \<le> start_line c) \<longrightarrow>
            method_start_line m \<le> end_line c)))"
proof (intro conjI impI)
  assume py: "(\<forall>n\<in>set tree. well_formed n) \<and>
    (case file_content of None \<Rightarrow> read_file file_path | Some c \<Rightarrow> Inr c) = Inr content \<and>
    ast_parse content = Inr tree \<and>
    parse_python_file ast_parse read_file file_path file_content = (classes, funs, rest)"
  then have inv: "py_inv (classes, funs, {})"
    using parse_python_file_py_inv by blast
  show "\<forall>c\<in>set classes. start_line c \<le> end_line c \<and>
         (\<forall>m\<in>set (methods c). start_line c \<le> start_line m \<and> start_line m \<le> end_line m \<and>
            end_line m \<le> end_line c)"
    using inv by (simp add: py_inv_def)
  show "\<forall>f\<in>set funs. start_line f \<le> end_line f"
    using inv by (simp add: py_inv_def)
next
  assume j: "parse_java_file readlines java_path java_content =
               (java_classes, java_methods, java_lines)"
  show "\<forall>c\<in>set java_classes. 1 \<le> start_line c \<and> start_line c \<le> end_line c \<and>
         end_line c \<le> int (length java_lines)"
  proof (cases "(java_classes, java_methods, java_lines) = ([], [], [])")
    case True
    then show ?thesis by simp
  next
    case False
    then have p: "parse_java_lines java_lines = (java_classes, java_methods, java_lines)"
      using parse_java_file_cases[OF j] by blast
    show ?thesis by (rule parse_java_lines_props(2)[OF p])
  qed
  show "\<forall>m\<in>set java_methods.
         1 \<le> method_start_line m \<and> method_start_line m \<le> int (length java_lines) \<and>
         method_text m = [java_lines ! nat (method_start_line m - 1)] \<and>
         method_match (java_lines ! nat (method_start_line m - 1)) = Some (method_name m) \<and>
         class_match (java_lines ! nat (method_start_line m - 1)) = None \<and>
         (\<forall>c\<in>set java_classes.
            start_line c \<le> method_start_line m \<and>
            (\<forall>d\<in>set java_classes.
               start_line d \<le> method_start_line m \<longrightarrow> start_line d \<le> start_line c) \<longrightarrow>
            method_start_line m \<le> end_line c)"
  proof (cases "(java_classes, java_methods, java_lines) = ([], [], [])")
    case True
    then show ?thesis by simp
  next
    case False
    then have p: "parse_java_lines java_lines = (java_classes, java_methods, java_lines)"
      using parse_java_file_cases[OF j] by blast
    note props = parse_java_lines_props[OF p]
    have spans: "\<forall>c\<in>set java_classes. start_line c \<le> end_line c"
    proof
      fix c assume "c \<in> set java_classes"
      with props(2)
      have "1 \<le> start_line c \<and> start_line c \<le> end_line c \<and>
            end_line c \<le> int (length java_lines)"
        by (rule bspec)
      then show "start_line c \<le> end_line c" by simp
    qed
    show ?thesis
    proof
      fix m assume m: "m \<in> set java_methods"
      have b: "1 \<le> method_start_line m \<and> method_start_line m \<le> int (length java_lines) \<and>
         method_text m = [java_lines ! nat (method_start_line m - 1)] \<and>
         method_match (java_lines ! nat (method_start_line m - 1)) = Some (method_name m) \<and>
         class_match (java_lines ! nat (method_start_line m - 1)) = None"
        using props(5) m by (rule bspec)
      have "method_start_line m \<le> end_line c"
        if c: "c \<in> set java_classes" "start_line c \<le> method_start_line m"
          "\<forall>d\<in>set java_classes.
             start_line d \<le> method_start_line m \<longrightarrow> start_line d \<le> start_line c" for c
      proof -
        have "java_classes \<noteq> []" using c(1) by auto
        then have l: "method_start_line m \<le> end_line (last java_classes)"
          using props(4) b by simp
        show ?thesis
          by (rule chained_last_before[OF props(3) spans c(1) c(2) l c(3)])
      qed
      then have "\<forall>c\<in>set java_classes.
            start_line c \<le> method_start_line m \<and>
            (\<forall>d\<in>set java_classes.
               start_line d \<le> method_start_line m \<longrightarrow> start_line d \<le> start_line c) \<longrightarrow>
            method_start_line m \<le> end_line c"
        by simp
      with b show "1 \<le> method_start_line m \<and> method_start_line m \<le> int (length java_lines) \<and>
         method_text m = [java_lines ! nat (method_start_line m - 1)] \<and>
         method_match (java_lines ! nat (method_start_line m - 1)) = Some (method_name m) \<and>
         class_match (java_lines ! nat (method_start_line m - 1)) = None \<and>
         (\<forall>c\<in>set java_classes.
            start_line c \<le> method_start_line m \<and>
            (\<forall>d\<in>set java_classes.
               start_line d \<le> method_start_line m \<longrightarrow> start_line d \<le> start_line c) \<longrightarrow>
            method_start_line m \<le> end_line c)"
        by simp
    qed
  qed
qed

lemma splitlines_class_with_method:
  "splitlines class_with_method = [''class A {'', ''    void run() {'', ''    }'', ''}'']"
  by (simp add: class_with_method_def splitlines_def is_linebreak_def)

lemma class_with_method_matches:
  "class_match ''    void run() {'' = None" "class_match ''    }'' = None"
  "method_match ''    void run() {'' = Some ''run''" "method_match ''    }'' = None"
  by (simp_all add: class_match_def method_match_def method_rest_def method_typed_def
        method_tail_def is_space_def is_word_def is_type_char_def)

lemma parse_class_with_method:
  "parse_java_file unreadable ''A.java'' (ContentStr class_with_method) =
     ([\<lparr>name = ''A'', start_line = 1, end_line = 4,
        text = [''class A {'', ''    void run() {'', ''    }'', ''}'']\<rparr>],
      [\<lparr>method_name = ''run'', method_start_line = 2, method_text = [''    void run() {'']\<rparr>],
      [''class A {'', ''    void run() {'', ''    }'', ''}''])"
  by (simp add: parse_java_file_def parse_java_lines_def splitlines_class_with_method
        class_match_samples method_match_samples class_with_method_matches
        py_slice_from_def py_clamp_def)

lemma parse_helper_module:
  "fst (parse_python_file (\<lambda>s. Inr helper_module) unreadable ''m.py''
          (Some helper_source)) \<noteq> [] \<and>
   fst (snd (parse_python_file (\<lambda>s. Inr helper_module) unreadable ''m.py''
          (Some helper_source))) \<noteq> []"
  by (simp add: parse_python_file_def walk_loop_def helper_module_def split_beta)

theorem spans_ordered_and_nested_witness:
  "list_all well_formed helper_module \<and>
   fst (parse_python_file (\<lambda>s. Inr helper_module) unreadable ''m.py''
          (Some helper_source)) \<noteq> [] \<and>
   fst (snd (parse_python_file (\<lambda>s. Inr helper_module) unreadable ''m.py''
          (Some helper_source))) \<noteq> [] \<and>
   list_all (\<lambda>c. start_line c \<le> end_line c \<and>
               list_all (\<lambda>m. start_line c \<le> start_line m \<and> start_line m \<le> end_line m \<and>
                              end_line m \<le> end_line c) (methods c))
     (fst (parse_python_file (\<lambda>s. Inr helper_module) unreadable ''m.py''
             (Some helper_source))) \<and>
   list_all (\<lambda>f. start_line f \<le> end_line f)
     (fst (snd (parse_python_file (\<lambda>s. Inr helper_module) unreadable ''m.py''
                  (Some helper_source)))) \<and>
   list_all (\<lambda>c. 1 \<le> start_line c \<and> start_line c \<le> end_line c \<and> end_line c \<le> 4)
     (fst (parse_java_file unreadable ''A.java'' (ContentStr class_with_method))) \<and>
   list_all (\<lambda>m. 1 \<le> method_start_line m \<and> method_start_line m \<le> 4 \<and>
               list_all (\<lambda>c. method_start_line m \<le> end_line c)
                 (fst (parse_java_file unreadable ''A.java'' (ContentStr class_with_method))))
     (fst (snd (parse_java_file unreadable ''A.java'' (ContentStr class_with_method))))"
proof -
  let ?R = "parse_python_file (\<lambda>s. Inr helper_module) unreadable ''m.py''
              (Some helper_source)"
  let ?J = "parse_java_file unreadable ''A.java'' (ContentStr class_with_method)"
  note t = spans_ordered_and_nested
             [where tree = helper_module and file_content = "Some helper_source"
                and read_file = unreadable and file_path = "''m.py''"
                and content = helper_source and ast_parse = "\<lambda>s. Inr helper_module"
                and classes = "fst ?R" and funs = "fst (snd ?R)" and rest = "snd (snd ?R)"
                and readlines = unreadable and java_path = "''A.java''"
                and java_content = "ContentStr class_with_method"
                and java_classes = "fst ?J" and java_methods = "fst (snd ?J)"
                and java_lines = "snd (snd ?J)"]
  have wf: "\<forall>n\<in>set helper_module. well_formed n"
    by (simp add: helper_module_def)
  have py: "(\<forall>c\<in>set (fst ?R). start_line c \<le> end_line c \<and>
               (\<forall>m\<in>set (methods c). start_line c \<le> start_line m \<and>
                   start_line m \<le> end_line m \<and> end_line m \<le> end_line c)) \<and>
            (\<forall>f\<in>set (fst (snd ?R)). start_line f \<le> end_line f)"
    using t wf by simp
  have jc: "\<forall>c\<in>set (fst ?J). 1 \<le> start_line c \<and> start_line c \<le> end_line c \<and>
               end_line c \<le> int (length (snd (snd ?J)))"
    using t by simp
  have jm: "\<forall>m\<in>set (fst (snd ?J)).
               1 \<le> method_start_line m \<and> method_start_line m \<le> int (length (snd (snd ?J))) \<and>
               (\<forall>c\<in>set (fst ?J).
                  start_line c \<le> method_start_line m \<and>
                  (\<forall>d\<in>set (fst ?J).
                     start_line d \<le> method_start_line m \<longrightarrow> start_line d \<le> start_line c) \<longrightarrow>
                  method_start_line m \<le> end_line c)"
    using t by simp
  have len: "int (length (snd (snd ?J))) = 4"
    by (simp add: parse_class_with_method)
  have last: "\<forall>m\<in>set (fst (snd ?J)). \<forall>c\<in>set (fst ?J).
                start_line c \<le> method_start_line m \<and>
                (\<forall>d\<in>set (fst ?J).
                   start_line d \<le> method_start_line m \<longrightarrow> start_line d \<le> start_line c)"
    by (simp add: parse_class_with_method)
  from jm last have cover: "\<forall>m\<in>set (fst (snd ?J)). \<forall>c\<in>set (fst ?J).
      method_start_line m \<le> end_line c"
    by blast
  show ?thesis
    using wf py jc jm cover parse_helper_module
    unfolding len by (simp add: list_all_iff)
qed

lemma splitlines_nested_class:
  "splitlines nested_class =
     [''class Outer {'', ''    class Inner {'', ''    }'', ''    void g() {'', ''    }'', ''}'']"
  by (simp add: nested_class_def splitlines_def is_linebreak_def)

lemma nested_class_matches:
  "class_match ''class Outer {'' = Some ''Outer''"
  "class_match ''    class Inner {'' = Some ''Inner''"
  "class_match ''    void g() {'' = None" "method_match ''    void g() {'' = Some ''g''"
  by (simp_all add: class_match_def method_match_def method_rest_def method_typed_def
        method_tail_def is_space_def is_word_def is_type_char_def)

lemma parse_nested_class:
  "parse_java_file unreadable ''Outer.java'' (ContentStr nested_class) =
     ([\<lparr>name = ''Outer'', start_line = 1, end_line = 1, text = [''class Outer {'']\<rparr>,
       \<lparr>name = ''Inner'', start_line = 2, end_line = 6,
         text = [''    class Inner {'', ''    }'', ''    void g() {'', ''    }'', ''}'']\<rparr>],
      [\<lparr>method_name = ''g'', method_start_line = 4, method_text = [''    void g() {'']\<rparr>],
      [''class Outer {'', ''    class Inner {'', ''    }'', ''    void g() {'', ''    }'', ''}''])"
  by (simp add: parse_java_file_def parse_java_lines_def splitlines_nested_class
        class_match_samples method_match_samples class_with_method_matches nested_class_matches
        py_slice_def py_slice_from_def py_clamp_def)

text \<open>
  Claim C8, as stated, fails for Java: the method \<open>g\<close> on line 4 belongs to \<open>Outer\<close>,
  whose braces close on line 6, and not to \<open>Inner\<close>, whose braces close on line 3; the
  parser reports \<open>Outer\<close> as line 1 only, so the line of \<open>g\<close> is outside the lines of the
  class that owns it.
\<close>

theorem java_method_outside_owner:
  "map name (fst (parse_java_file unreadable ''Outer.java'' (ContentStr nested_class))) =
     [''Outer'', ''Inner''] \<and>
   map start_line (fst (parse_java_file unreadable ''Outer.java'' (ContentStr nested_class))) =
     [1, 2] \<and>
   map end_line (fst (parse_java_file unreadable ''Outer.java'' (ContentStr nested_class))) =
     [1, 6] \<and>
   map method_name (fst (snd (parse_java_file unreadable ''Outer.java''
     (ContentStr nested_class)))) = [''g''] \<and>
   map method_start_line (fst (snd (parse_java_file unreadable ''Outer.java''
     (ContentStr nested_class)))) = [4] \<and>
   spec_class_end_line (splitlines nested_class) 1 = Some 6 \<and>
   spec_class_end_line (splitlines nested_class) 2 = Some 3"
  by (simp add: parse_nested_class splitlines_nested_class spec_class_end_line_def)


end
